theory Spec2Isabelle
  imports Complex_Main "HOL-Library.Sublist" "HOL-Library.List_Lexorder" "HOL-Library.Char_ord"
begin

section \<open>Tables\<close>

text \<open>
  The module \<^verbatim>\<open>code_from_cluster_assignment.py\<close> is a sequence of pandas calls on
  DataFrames. A cell of a table is a missing value (pandas' NaN), a string or a number;
  numbers are real numbers, so floating-point rounding is idealised. A row or column label
  is a cell as well (pandas labels are arbitrary values: \<^verbatim>\<open>get_dummies\<close> turns cell values
  into column labels, the transposition turns row labels into column labels).

  A DataFrame is its list of column labels and its list of rows, each row with its index
  label and its cells in column order.
\<close>

datatype cell = NA | is_Str: Str (the_Str: string) | is_Num: Num (the_Num: real)

type_synonym label = cell

record frame =
  columns :: "label list"
  rws :: "(label \<times> cell list) list"

text \<open>Every row of a DataFrame has one cell per column.\<close>

definition wf_frame :: "frame \<Rightarrow> bool" where
  "wf_frame df = list_all (\<lambda>r. length (snd r) = length (columns df)) (rws df)"

definition index :: "frame \<Rightarrow> label list" where
  "index df = map fst (rws df)"

text \<open>
  The exceptions the calls of the module raise. \<open>NotASeries\<close> stands for what follows
  \<^verbatim>\<open>df[label]\<close> when the label names several columns: pandas then returns a DataFrame
  where the code expects a Series (the file readers never produce such a table: they rename
  repeated headers). \<open>MaskError\<close> is the failure of \<^verbatim>\<open>.str.contains\<close> followed by a
  boolean \<^verbatim>\<open>.loc\<close> on a column with a value that is not a string (AttributeError on a
  numeric column, ValueError for a mask holding NaN). \<open>RegexError\<close> is \<^verbatim>\<open>re.error\<close>,
  raised for a pattern that is not a regular expression (an unbalanced parenthesis, say).
\<close>

datatype error =
  KeyError | TypeError | NotASeries | MaskError | RegexError
  | InsertError | DuplicateLabelsError

subsection \<open>The pandas operations the module calls\<close>

text \<open>The cells of a row under the column labels that satisfy \<open>P\<close>.\<close>

definition cells_where :: "(label \<Rightarrow> bool) \<Rightarrow> label list \<Rightarrow> cell list \<Rightarrow> cell list" where
  "cells_where P cols r = map snd (filter (\<lambda>lc. P (fst lc)) (zip cols r))"

text \<open>\<^verbatim>\<open>df[[l1, ..., ln]]\<close>: the columns with these labels, in the order of the list; KeyError
  when a label names no column.\<close>

definition select_columns :: "label list \<Rightarrow> frame \<Rightarrow> error + frame" where
  "select_columns ls df =
     (if list_ex (\<lambda>l. l \<notin> set (columns df)) ls then Inl KeyError
      else Inr \<lparr>columns = concat (map (\<lambda>l. filter (\<lambda>c. c = l) (columns df)) ls),
                rws = map (\<lambda>r. (fst r, concat (map (\<lambda>l. cells_where (\<lambda>c. c = l) (columns df) (snd r)) ls)))
                          (rws df)\<rparr>)"

text \<open>\<^verbatim>\<open>df[l]\<close> as a Series: the index label and the value of every row.\<close>

definition col_positions :: "label \<Rightarrow> frame \<Rightarrow> nat list" where
  "col_positions l df = filter (\<lambda>p. columns df ! p = l) [0..<length (columns df)]"

definition get_series :: "label \<Rightarrow> frame \<Rightarrow> error + (label \<times> cell) list" where
  "get_series l df =
     (case col_positions l df of
        [] \<Rightarrow> Inl KeyError
      | [p] \<Rightarrow> Inr (map (\<lambda>r. (fst r, snd r ! p)) (rws df))
      | _ \<Rightarrow> Inl NotASeries)"

text \<open>\<^verbatim>\<open>df.dropna()\<close>: the rows without a missing value.\<close>

definition dropna :: "frame \<Rightarrow> frame" where
  "dropna df = df\<lparr>rws := filter (\<lambda>r. NA \<notin> set (snd r)) (rws df)\<rparr>"

text \<open>\<^verbatim>\<open>df[df[l].isin(vs)]\<close> and \<^verbatim>\<open>df.loc[df[l].isin(vs)]\<close>: the rows whose value in
  column \<open>l\<close> is one of \<open>vs\<close>.\<close>

definition isin_rows :: "label \<Rightarrow> cell list \<Rightarrow> frame \<Rightarrow> error + frame" where
  "isin_rows l vs df =
     (case col_positions l df of
        [] \<Rightarrow> Inl KeyError
      | [p] \<Rightarrow> Inr (df\<lparr>rws := filter (\<lambda>r. snd r ! p \<in> set vs) (rws df)\<rparr>)
      | _ \<Rightarrow> Inl NotASeries)"

text \<open>\<^verbatim>\<open>df.T\<close>: row labels become column labels and column labels row labels.\<close>

definition frame_T :: "frame \<Rightarrow> frame" where
  "frame_T df =
     \<lparr>columns = index df,
      rws = map (\<lambda>j. (columns df ! j, map (\<lambda>r. snd r ! j) (rws df))) [0..<length (columns df)]\<rparr>"

text \<open>
  \<^verbatim>\<open>df.reset_index(inplace=True)\<close> on an unnamed index: the index becomes the first column,
  labelled \<^verbatim>\<open>index\<close>, or \<^verbatim>\<open>level_0\<close> when a column \<^verbatim>\<open>index\<close> exists already (ValueError
  when that exists too), and the rows are numbered from 0.
\<close>

definition reset_index :: "frame \<Rightarrow> error + frame" where
  "reset_index df =
     (let l = (if Str ''index'' \<in> set (columns df) then Str ''level_0'' else Str ''index'') in
      if l \<in> set (columns df) then Inl InsertError
      else Inr \<lparr>columns = l # columns df,
                rws = map (\<lambda>k. (Num (real k), fst (rws df ! k) # snd (rws df ! k))) [0..<length (rws df)]\<rparr>)"

text \<open>\<^verbatim>\<open>df.rename(columns={a: b})\<close>.\<close>

definition rename_columns :: "label \<Rightarrow> label \<Rightarrow> frame \<Rightarrow> frame" where
  "rename_columns a b df = df\<lparr>columns := map (\<lambda>c. if c = a then b else c) (columns df)\<rparr>"

section \<open>The loaders\<close>

text \<open>
  Reading the files is delegated to pandas; the loaders are modelled from the DataFrame the
  reader returns. For \<^verbatim>\<open>load_gene_expression_data\<close> that is the gene-by-sample matrix
  (\<^verbatim>\<open>pd.read_csv(filepath, sep="\t", index_col=0)\<close>: one row per gene, labelled by the gene,
  one column per sample). \<^verbatim>\<open>rename_axis(None, axis=1)\<close> removes the name of the column
  axis and changes no label and no cell. \<^verbatim>\<open>reset_index(inplace=True)\<close> works on the
  table the function has just built, which no caller holds.
\<close>

definition load_gene_expression_data :: "frame \<Rightarrow> error + frame" where
  "load_gene_expression_data raw =
     (case reset_index (frame_T (dropna raw)) of
        Inl e \<Rightarrow> Inl e
      | Inr genes_expression \<Rightarrow> Inr (rename_columns (Str ''index'') (Str ''NAME'') genes_expression))"

text \<open>
  For \<^verbatim>\<open>load_clinical_data\<close> the input is the sheet as
  \<^verbatim>\<open>pd.read_excel(filepath, header=1)\<close> returns it.
\<close>

definition er_filter :: "frame \<Rightarrow> error + frame" where
  "er_filter df = isin_rows (Str ''ER Status'') [Str ''Negative'', Str ''Positive''] df"

definition clinical_columns :: "label list" where
  "clinical_columns = [Str ''Complete TCGA ID'', Str ''ER Status'', Str ''AJCC Stage'']"

definition load_clinical_data :: "frame \<Rightarrow> error + frame" where
  "load_clinical_data raw =
     (case select_columns clinical_columns raw of
        Inl e \<Rightarrow> Inl e
      | Inr sel \<Rightarrow> er_filter (dropna sel))"

section \<open>The category encoder\<close>

text \<open>
  \<^verbatim>\<open>pd.get_dummies(series)\<close>: one indicator column per category of the Series, with the
  Series' index. The categories are the distinct values that are not missing, sorted:
  the numbers in increasing order first, then the strings in the order of their
  characters. An indicator is 1 or 0 (the integers of pandas 1, the booleans of pandas 2,
  which are equal to 1 and 0).
\<close>

definition categories :: "cell list \<Rightarrow> cell list" where
  "categories vs =
     (let xs = remdups (filter (\<lambda>v. v \<noteq> NA) vs) in
      map Num (sort (map the_Num (filter is_Num xs)))
      @ map Str (sort (map the_Str (filter is_Str xs))))"

definition indicator :: "bool \<Rightarrow> cell" where
  "indicator b = (if b then Num 1 else Num 0)"

definition get_dummies :: "(label \<times> cell) list \<Rightarrow> frame" where
  "get_dummies s =
     (let cats = categories (map snd s) in
      \<lparr>columns = cats, rws = map (\<lambda>iv. (fst iv, map (\<lambda>c. indicator (snd iv = c)) cats)) s\<rparr>)"

text \<open>\<^verbatim>\<open>pd.concat((a, b), axis=1)\<close> of two tables with the same index (here \<open>a\<close> is computed
  from a column of \<open>b\<close>): the columns of \<open>a\<close>, then those of \<open>b\<close>.\<close>

definition concat_axis1 :: "frame \<Rightarrow> frame \<Rightarrow> frame" where
  "concat_axis1 a b =
     \<lparr>columns = columns a @ columns b,
      rws = map (\<lambda>ab. (fst (fst ab), snd (fst ab) @ snd (snd ab))) (zip (rws a) (rws b))\<rparr>"

text \<open>\<^verbatim>\<open>df.drop(ls, axis=1)\<close>: without the columns labelled in \<open>ls\<close>; KeyError when a label
  names no column.\<close>

definition drop_columns :: "label list \<Rightarrow> frame \<Rightarrow> error + frame" where
  "drop_columns ls df =
     (if list_ex (\<lambda>l. l \<notin> set (columns df)) ls then Inl KeyError
      else Inr \<lparr>columns = filter (\<lambda>c. c \<notin> set ls) (columns df),
                rws = map (\<lambda>r. (fst r, cells_where (\<lambda>c. c \<notin> set ls) (columns df) (snd r))) (rws df)\<rparr>)"

text \<open>
  A function that receives a table returns, beside its result, the table as the caller
  finds it after the call: Python passes the object itself, and an assignment into it
  (\<^verbatim>\<open>.loc[...] = ...\<close>, \<^verbatim>\<open>inplace=True\<close>) is seen by the caller, while binding a
  local name to a new table is not. \<^verbatim>\<open>encode_estrogen_receptor\<close> only binds local names.
\<close>

definition encode_estrogen_receptor :: "frame \<Rightarrow> frame \<times> (error + frame)" where
  "encode_estrogen_receptor clinical_data =
     (clinical_data,
      case get_series (Str ''ER Status'') clinical_data of
        Inl e \<Rightarrow> Inl e
      | Inr s \<Rightarrow>
          (let dummy_data = get_dummies s;
               estrogen_receptor = concat_axis1 dummy_data clinical_data
           in case drop_columns [Str ''ER Status''] estrogen_receptor of
                Inl e \<Rightarrow> Inl e
              | Inr er1 \<Rightarrow>
                  (case drop_columns [Str ''Positive''] er1 of
                     Inl e \<Rightarrow> Inl e
                   | Inr er2 \<Rightarrow>
                       select_columns clinical_columns
                         (rename_columns (Str ''Negative'') (Str ''ER Status'') er2))))"

section \<open>The sample matcher\<close>

text \<open>
  \<^verbatim>\<open>Series.str.contains(pat)\<close> compiles \<open>pat\<close> as a regular expression
  (\<^verbatim>\<open>re.compile\<close>: TypeError when \<open>pat\<close> is not a string, \<^verbatim>\<open>re.error\<close> when it is
  not a regular expression) and searches every string of the column for it
  (\<^verbatim>\<open>re.search\<close>). Python's regular-expression engine is a library of its own and a
  parameter \<open>rx\<close> of the model: \<open>rx pat\<close> is \<open>None\<close> when \<open>pat\<close> does not compile, and
  otherwise \<open>Some found\<close>, where \<open>found s\<close> tells whether the pattern is found in \<open>s\<close>.
\<close>

type_synonym regex_engine = "string \<Rightarrow> (string \<Rightarrow> bool) option"

text \<open>
  The one fact about Python's engine that is used below, and only where it is named: a
  pattern without metacharacter (as the TCGA identifiers are: letters, digits and hyphens)
  compiles, and is found in exactly the strings that contain it as a substring.
\<close>

definition regex_special :: "string" where
  "regex_special = ''.^$*+?{}[]|()'' @ [CHR 0x5C]"

definition regex_literal :: "string \<Rightarrow> bool" where
  "regex_literal pat = list_all (\<lambda>c. c \<notin> set regex_special) pat"

definition literal_engine :: "regex_engine \<Rightarrow> bool" where
  "literal_engine rx = (\<forall>pat. regex_literal pat \<longrightarrow> rx pat = Some (sublist pat))"

text \<open>
  The search for the pattern as a plain substring, which is what Python's engine computes
  for a pattern without metacharacter. The examples run with it, on identifiers without
  metacharacter.
\<close>

definition re_plain :: regex_engine where
  "re_plain pat = Some (sublist pat)"

text \<open>
  One turn of the loop: \<^verbatim>\<open>df.loc[df[l].str.contains(sid), l] = sid\<close>. The column is
  looked up first, the pattern is compiled next, and the mask is applied last; when both the
  identifier and a name are not strings the model reports the TypeError of the pattern
  (on a numeric column pandas would report the AttributeError of \<^verbatim>\<open>.str\<close> before it).
\<close>

definition contains_assign :: "regex_engine \<Rightarrow> label \<Rightarrow> cell \<Rightarrow> frame \<Rightarrow> error + frame" where
  "contains_assign rx l sid df =
     (case col_positions l df of
        [] \<Rightarrow> Inl KeyError
      | [p] \<Rightarrow>
          (case sid of
             Str pat \<Rightarrow>
               (case rx pat of
                  None \<Rightarrow> Inl RegexError
                | Some found \<Rightarrow>
                    if list_ex (\<lambda>r. \<not> is_Str (snd r ! p)) (rws df) then Inl MaskError
                    else Inr (df\<lparr>rws := map (\<lambda>r. if found (the_Str (snd r ! p))
                                                     then (fst r, (snd r)[p := sid]) else r)
                                               (rws df)\<rparr>))
           | _ \<Rightarrow> Inl TypeError)
      | _ \<Rightarrow> Inl NotASeries)"

text \<open>The loop \<^verbatim>\<open>for id in sample_ID\<close>: the table after the loop, and the exception that
  stopped it, if any.\<close>

fun overwrite_names :: "regex_engine \<Rightarrow> cell list \<Rightarrow> frame \<Rightarrow> frame \<times> error option" where
  "overwrite_names rx [] df = (df, None)"
| "overwrite_names rx (sid # sids) df =
     (case contains_assign rx (Str ''NAME'') sid df of
        Inl e \<Rightarrow> (df, Some e)
      | Inr df' \<Rightarrow> overwrite_names rx sids df')"

text \<open>\<^verbatim>\<open>df.set_index(l)\<close>: column \<open>l\<close> becomes the index.\<close>

definition set_index :: "label \<Rightarrow> frame \<Rightarrow> error + frame" where
  "set_index l df =
     (case col_positions l df of
        [] \<Rightarrow> Inl KeyError
      | [p] \<Rightarrow> Inr \<lparr>columns = filter (\<lambda>c. c \<noteq> l) (columns df),
                      rws = map (\<lambda>r. (snd r ! p, cells_where (\<lambda>c. c \<noteq> l) (columns df) (snd r))) (rws df)\<rparr>
      | _ \<Rightarrow> Inl NotASeries)"

text \<open>
  \<^verbatim>\<open>df.reindex(index=target)\<close>, as \<^verbatim>\<open>Index.reindex\<close> does it: when the index equals the
  target the table is copied as it is; otherwise an index with a repeated label raises
  ValueError (``cannot reindex on an axis with duplicate labels''), and an index without
  one gives, for every label of the target, the row with that label, or a row of missing
  values when there is none.
\<close>

definition reindex :: "label list \<Rightarrow> frame \<Rightarrow> error + frame" where
  "reindex target df =
     (if index df = target then Inr df
      else if distinct (index df) then
        Inr \<lparr>columns = columns df,
             rws = map (\<lambda>t. (t, case map_of (rws df) t of
                                   Some r \<Rightarrow> r
                                 | None \<Rightarrow> replicate (length (columns df)) NA)) target\<rparr>
      else Inl DuplicateLabelsError)"

text \<open>
  The first component of the result is the pair of tables as the caller finds them after
  the call: the loop assigns into the expression table it was given; everything after the
  loop binds local names. (\<open>rx\<close> is Python's regular-expression engine, see above.)
\<close>

definition create_data_structures_with_matching_sample ::
  "regex_engine \<Rightarrow> frame \<Rightarrow> frame \<Rightarrow> (frame \<times> frame) \<times> (error + frame \<times> frame)" where
  "create_data_structures_with_matching_sample rx genes_expression estrogen_receptor =
     (case get_series (Str ''Complete TCGA ID'') estrogen_receptor of
        Inl e \<Rightarrow> ((genes_expression, estrogen_receptor), Inl e)
      | Inr s \<Rightarrow>
          (let sample_ID = map snd s;
               looped = overwrite_names rx sample_ID genes_expression
           in ((fst looped, estrogen_receptor),
               case snd looped of
                 Some e \<Rightarrow> Inl e
               | None \<Rightarrow>
                   (case get_series (Str ''NAME'') (fst looped) of
                      Inl e \<Rightarrow> Inl e
                    | Inr n \<Rightarrow>
                        (let TCGA_ID = map snd n in
                         case isin_rows (Str ''Complete TCGA ID'') TCGA_ID estrogen_receptor of
                           Inl e \<Rightarrow> Inl e
                         | Inr er' \<Rightarrow>
                             (case set_index (Str ''NAME'') (fst looped) of
                                Inl e \<Rightarrow> Inl e
                              | Inr indexed \<Rightarrow>
                                  (case get_series (Str ''Complete TCGA ID'') er' of
                                     Inl e \<Rightarrow> Inl e
                                   | Inr target \<Rightarrow>
                                       (case reindex (map snd target) indexed of
                                          Inl e \<Rightarrow> Inl e
                                        | Inr reordered \<Rightarrow> Inr (reordered, er')))))))))"

text \<open>
  What the loop does to one name, \<open>n\<close>: the identifiers are tried in order, each against
  the name as the identifiers before it left it.
\<close>

definition overwrite_step :: "regex_engine \<Rightarrow> string \<Rightarrow> string \<Rightarrow> string" where
  "overwrite_step rx n sid =
     (case rx sid of None \<Rightarrow> n | Some found \<Rightarrow> if found n then sid else n)"

definition final_name :: "regex_engine \<Rightarrow> string list \<Rightarrow> string \<Rightarrow> string" where
  "final_name rx sids n = foldl (overwrite_step rx) n sids"

text \<open>
  The name the rule ``the last identifier contained in the name wins'' gives: the last
  identifier, in the order of the list, that is a substring of the name \<open>n\<close> itself.
\<close>

definition last_match :: "string list \<Rightarrow> string \<Rightarrow> string" where
  "last_match sids n = (case filter (\<lambda>sid. sublist sid n) sids of [] \<Rightarrow> n | m # ms \<Rightarrow> last (m # ms))"

section \<open>The variability summary\<close>

text \<open>
  \<^verbatim>\<open>DataFrame.std()\<close> with its defaults (\<^verbatim>\<open>skipna=True\<close>, \<^verbatim>\<open>ddof=1\<close>), column by
  column as pandas' \<^verbatim>\<open>nanvar\<close> computes it: the missing values are left out, the mean of
  the \<open>n\<close> remaining values is taken, and the sum of the squared deviations from it is
  divided by \<open>n - ddof\<close>; the result is missing when \<open>n - ddof\<close> is not positive. A column
  with a string raises TypeError (pandas 2).
\<close>

definition column_std :: "cell list \<Rightarrow> cell" where
  "column_std col =
     (let xs = map the_Num (filter is_Num col); n = length xs in
      if n \<le> 1 then NA
      else (let avg = sum_list xs / real n in
            Num (sqrt (sum_list (map (\<lambda>x. (avg - x)\<^sup>2) xs) / real (n - 1)))))"

definition get_std :: "frame \<Rightarrow> frame \<times> (error + (label \<times> cell) list)" where
  "get_std genes_expression =
     (genes_expression,
      if list_ex (\<lambda>r. list_ex is_Str (snd r)) (rws genes_expression) then Inl TypeError
      else Inr (map (\<lambda>j. (columns genes_expression ! j,
                            column_std (map (\<lambda>r. snd r ! j) (rws genes_expression))))
                    [0..<length (columns genes_expression)]))"

section \<open>Example tables\<close>

text \<open>A gene-by-sample matrix with an incomplete gene, as \<^verbatim>\<open>read_csv\<close> returns it.\<close>

definition ex_matrix :: frame where
  "ex_matrix =
     \<lparr>columns = [Str ''TCGA-A1-01-sample'', Str ''TCGA-A2-02-sample''],
      rws = [(Str ''BRCA1'', [Num 2, Num 4]),
             (Str ''TP53'', [NA, Num 3]),
             (Str ''ESR1'', [Num 5, Num 1])]\<rparr>"

definition ex_expression :: frame where
  "ex_expression =
     \<lparr>columns = [Str ''NAME'', Str ''BRCA1'', Str ''ESR1''],
      rws = [(Num 0, [Str ''TCGA-A1-01-sample'', Num 2, Num 5]),
             (Num 1, [Str ''TCGA-A2-02-sample'', Num 4, Num 1])]\<rparr>"

text \<open>A clinical sheet with a fourth column, an indeterminate status and a missing stage.\<close>

definition ex_sheet :: frame where
  "ex_sheet =
     \<lparr>columns = [Str ''Complete TCGA ID'', Str ''Gender'', Str ''ER Status'', Str ''AJCC Stage''],
      rws = [(Num 0, [Str ''TCGA-A1-01'', Str ''FEMALE'', Str ''Negative'', Str ''I'']),
             (Num 1, [Str ''TCGA-A3-03'', Str ''FEMALE'', Str ''Indeterminate'', Str ''II'']),
             (Num 2, [Str ''TCGA-A2-02'', Str ''FEMALE'', Str ''Positive'', Str ''II'']),
             (Num 3, [Str ''TCGA-A4-04'', Str ''MALE'', Str ''Positive'', NA])]\<rparr>"

definition ex_clinical :: frame where
  "ex_clinical =
     \<lparr>columns = [Str ''Complete TCGA ID'', Str ''ER Status'', Str ''AJCC Stage''],
      rws = [(Num 0, [Str ''TCGA-A1-01'', Str ''Negative'', Str ''I'']),
             (Num 2, [Str ''TCGA-A2-02'', Str ''Positive'', Str ''II''])]\<rparr>"

definition ex_encoded :: frame where
  "ex_encoded =
     \<lparr>columns = [Str ''Complete TCGA ID'', Str ''ER Status'', Str ''AJCC Stage''],
      rws = [(Num 0, [Str ''TCGA-A1-01'', Num 1, Str ''I'']),
             (Num 2, [Str ''TCGA-A2-02'', Num 0, Str ''II''])]\<rparr>"

text \<open>A clinical sheet whose usable rows are all negative, and what the loader makes of it.\<close>

definition ex_sheet_negative :: frame where
  "ex_sheet_negative =
     \<lparr>columns = [Str ''Complete TCGA ID'', Str ''ER Status'', Str ''AJCC Stage''],
      rws = [(Num 0, [Str ''TCGA-A1-01'', Str ''Negative'', Str ''I'']),
             (Num 1, [Str ''TCGA-A3-03'', Str ''Indeterminate'', Str ''II'']),
             (Num 2, [Str ''TCGA-A5-05'', Str ''Negative'', Str ''III''])]\<rparr>"

definition ex_clinical_negative :: frame where
  "ex_clinical_negative =
     \<lparr>columns = [Str ''Complete TCGA ID'', Str ''ER Status'', Str ''AJCC Stage''],
      rws = [(Num 0, [Str ''TCGA-A1-01'', Str ''Negative'', Str ''I'']),
             (Num 2, [Str ''TCGA-A5-05'', Str ''Negative'', Str ''III''])]\<rparr>"

text \<open>The example of the specification: the expression table after the matcher's loop, and
  the expression table the matcher returns for \<open>ex_expression\<close> and \<open>ex_clinical\<close>.\<close>

definition ex_normalized :: frame where
  "ex_normalized =
     \<lparr>columns = [Str ''NAME'', Str ''BRCA1'', Str ''ESR1''],
      rws = [(Num 0, [Str ''TCGA-A1-01'', Num 2, Num 5]),
             (Num 1, [Str ''TCGA-A2-02'', Num 4, Num 1])]\<rparr>"

definition ex_matched :: frame where
  "ex_matched =
     \<lparr>columns = [Str ''BRCA1'', Str ''ESR1''],
      rws = [(Str ''TCGA-A1-01'', [Num 2, Num 5]),
             (Str ''TCGA-A2-02'', [Num 4, Num 1])]\<rparr>"

text \<open>Two clinical identifiers that both occur in the first name of \<open>ex_expression\<close>.\<close>

definition ex_clinical_nested :: frame where
  "ex_clinical_nested =
     \<lparr>columns = [Str ''Complete TCGA ID'', Str ''ER Status'', Str ''AJCC Stage''],
      rws = [(Num 0, [Str ''TCGA-A1'', Str ''Negative'', Str ''I'']),
             (Num 1, [Str ''A1-01'', Str ''Positive'', Str ''II''])]\<rparr>"

text \<open>Two expression rows of the same sample, and a clinical table that lists that sample
  twice.\<close>

definition ex_replicates :: frame where
  "ex_replicates =
     \<lparr>columns = [Str ''NAME'', Str ''BRCA1''],
      rws = [(Num 0, [Str ''TCGA-A1-01-a'', Num 2]),
             (Num 1, [Str ''TCGA-A1-01-b'', Num 4])]\<rparr>"

definition ex_clinical_repeated :: frame where
  "ex_clinical_repeated =
     \<lparr>columns = [Str ''Complete TCGA ID'', Str ''ER Status'', Str ''AJCC Stage''],
      rws = [(Num 0, [Str ''TCGA-A1-01'', Str ''Negative'', Str ''I'']),
             (Num 1, [Str ''TCGA-A1-01'', Str ''Positive'', Str ''II''])]\<rparr>"

definition ex_replicates_normalized :: frame where
  "ex_replicates_normalized =
     \<lparr>columns = [Str ''NAME'', Str ''BRCA1''],
      rws = [(Num 0, [Str ''TCGA-A1-01'', Num 2]),
             (Num 1, [Str ''TCGA-A1-01'', Num 4])]\<rparr>"

text \<open>The variability example of the specification: one gene, two samples.\<close>

definition ex_two_samples :: frame where
  "ex_two_samples =
     \<lparr>columns = [Str ''BRCA1''],
      rws = [(Str ''TCGA-A1-01'', [Num 2]), (Str ''TCGA-A2-02'', [Num 4])]\<rparr>"

section \<open>Properties of the loaders\<close>

lemma wf_frame_row:
  "wf_frame df \<Longrightarrow> r \<in> set (rws df) \<Longrightarrow> length (snd r) = length (columns df)"
  by (simp add: wf_frame_def list_all_iff)

lemma rws_frame_T_reset:
  "reset_index (frame_T df) = Inr g \<Longrightarrow>
   rws g = map (\<lambda>k. (Num (real k), columns df ! k # map (\<lambda>r. snd r ! k) (rws df)))
               [0..<length (columns df)]
   \<and> tl (columns g) = index df"
  by (auto simp: reset_index_def frame_T_def Let_def split: if_splits)

text \<open>The loader returns a table unless genes are labelled \<^verbatim>\<open>index\<close> and \<^verbatim>\<open>level_0\<close>.\<close>

lemma load_gene_expression_data_returns:
  assumes "Str ''index'' \<notin> fst ` set (rws raw) \<or> Str ''level_0'' \<notin> fst ` set (rws raw)"
  shows "\<exists>out. load_gene_expression_data raw = Inr out"
proof -
  have "set (columns (frame_T (dropna raw))) \<subseteq> fst ` set (rws raw)"
    by (auto simp: frame_T_def dropna_def index_def)
  then have "Str ''index'' \<notin> set (columns (frame_T (dropna raw)))
           \<or> Str ''level_0'' \<notin> set (columns (frame_T (dropna raw)))"
    using assms by blast
  then have "\<exists>g. reset_index (frame_T (dropna raw)) = Inr g"
    by (cases "Str ''index'' \<in> set (columns (frame_T (dropna raw)))")
       (simp_all add: reset_index_def Let_def)
  then show ?thesis by (auto simp: load_gene_expression_data_def)
qed

text \<open>
  Claim C3. For every gene-by-sample matrix, the table \<^verbatim>\<open>load_gene_expression_data\<close>
  returns has one row per sample and, after the identifier column, one column per gene
  that had no missing value; no gene column of any row holds a missing value.
\<close>

theorem load_gene_expression_data_complete:
  assumes "wf_frame raw" and "load_gene_expression_data raw = Inr out"
  shows "wf_frame out \<and> length (rws out) = length (columns raw)
    \<and> tl (columns out) = map (\<lambda>c. if c = Str ''index'' then Str ''NAME'' else c)
                              (map fst (filter (\<lambda>r. NA \<notin> set (snd r)) (rws raw)))
    \<and> (\<forall>r \<in> set (rws out). \<forall>k. 0 < k \<and> k < length (columns out) \<longrightarrow> snd r ! k \<noteq> NA)"
proof -
  let ?kept = "filter (\<lambda>r. NA \<notin> set (snd r)) (rws raw)"
  from assms(2) obtain g where g: "reset_index (frame_T (dropna raw)) = Inr g"
    and out: "out = rename_columns (Str ''index'') (Str ''NAME'') g"
    by (auto simp: load_gene_expression_data_def split: sum.splits)
  have rows: "rws out = map (\<lambda>k. (Num (real k), columns raw ! k # map (\<lambda>r. snd r ! k) ?kept))
                            [0..<length (columns raw)]"
    using rws_frame_T_reset[OF g] out by (simp add: rename_columns_def dropna_def)
  have cols: "length (columns out) = Suc (length ?kept)"
    using g out
    by (auto simp: reset_index_def frame_T_def Let_def rename_columns_def dropna_def index_def
             split: if_splits)
  have tlc: "tl (columns out) = map (\<lambda>c. if c = Str ''index'' then Str ''NAME'' else c) (map fst ?kept)"
  proof -
    have "tl (columns out) = map (\<lambda>c. if c = Str ''index'' then Str ''NAME'' else c) (tl (columns g))"
      using out by (simp add: rename_columns_def map_tl)
    then show ?thesis using rws_frame_T_reset[OF g] by (simp add: dropna_def index_def)
  qed
  have wf: "wf_frame out"
    by (simp add: wf_frame_def list_all_iff rows cols)
  have nomiss: "\<forall>r \<in> set (rws out). \<forall>k. 0 < k \<and> k < length (columns out) \<longrightarrow> snd r ! k \<noteq> NA"
  proof (intro ballI allI impI)
    fix r k assume r: "r \<in> set (rws out)" and k: "0 < k \<and> k < length (columns out)"
    from r rows obtain j where j: "j < length (columns raw)"
      and rj: "snd r = columns raw ! j # map (\<lambda>r. snd r ! j) ?kept" by auto
    from k obtain k' where k': "k = Suc k'" "k' < length ?kept" using cols by (cases k) auto
    define g' where "g' = ?kept ! k'"
    have "g' \<in> set ?kept" unfolding g'_def using k'(2) by (rule nth_mem)
    then have gin: "g' \<in> set (rws raw)" and noNA: "NA \<notin> set (snd g')" by simp_all
    have "length (snd g') = length (columns raw)" using assms(1) gin by (rule wf_frame_row)
    then have "snd g' ! j \<in> set (snd g')" using j by simp
    then have "snd g' ! j \<noteq> NA" using noNA by metis
    then show "snd r ! k \<noteq> NA" using rj k' by (simp add: g'_def)
  qed
  show ?thesis using wf rows tlc nomiss by simp
qed

theorem load_gene_expression_data_complete_witness:
  "wf_frame ex_matrix \<and> load_gene_expression_data ex_matrix = Inr ex_expression
   \<and> wf_frame ex_expression \<and> length (rws ex_expression) = length (columns ex_matrix)
   \<and> tl (columns ex_expression) = [Str ''BRCA1'', Str ''ESR1'']
   \<and> list_all (\<lambda>r. list_all (\<lambda>k. snd r ! k \<noteq> NA) [1, 2]) (rws ex_expression)"
proof -
  have wf: "wf_frame ex_matrix" by (simp add: wf_frame_def ex_matrix_def)
  have ld: "load_gene_expression_data ex_matrix = Inr ex_expression"
    by (simp add: load_gene_expression_data_def dropna_def frame_T_def reset_index_def
                  rename_columns_def index_def Let_def upt_rec ex_matrix_def ex_expression_def)
  from load_gene_expression_data_complete[OF wf ld] wf ld show ?thesis
    by (simp add: ex_matrix_def ex_expression_def)
qed

lemma filter_eq_distinct: "distinct cols \<Longrightarrow> l \<in> set cols \<Longrightarrow> filter (\<lambda>c. c = l) cols = [l]"
  by (induction cols) (auto simp: filter_empty_conv)

lemma cells_where_eq_distinct:
  "distinct cols \<Longrightarrow> l \<in> set cols \<Longrightarrow> length r = length cols \<Longrightarrow>
   \<exists>v. cells_where (\<lambda>c. c = l) cols r = [v] \<and> v \<in> set r"
proof (induction cols arbitrary: r)
  case Nil
  then show ?case by simp
next
  case (Cons c cols)
  then obtain x xs where r: "r = x # xs" "length xs = length cols" by (cases r) auto
  show ?case
  proof (cases "c = l")
    case True
    then have "l \<notin> set cols" using Cons.prems(1) by simp
    then have "filter (\<lambda>lc. fst lc = l) (zip cols xs) = []"
      by (auto simp: filter_empty_conv dest: set_zip_leftD)
    then show ?thesis using True r by (simp add: cells_where_def)
  next
    case False
    then have "l \<in> set cols" using Cons.prems(2) by auto
    from Cons.IH[OF _ this r(2)] Cons.prems(1) False r show ?thesis
      by (auto simp: cells_where_def)
  qed
qed

lemma col_positions_ER:
  "columns df = clinical_columns \<Longrightarrow> col_positions (Str ''ER Status'') df = [1]"
  by (simp add: col_positions_def clinical_columns_def upt_rec)

lemma col_positions_ID:
  "columns df = clinical_columns \<Longrightarrow> col_positions (Str ''Complete TCGA ID'') df = [0]"
  by (simp add: col_positions_def clinical_columns_def upt_rec)

lemma select_clinical:
  assumes "wf_frame raw" "distinct (columns raw)" "set clinical_columns \<subseteq> set (columns raw)"
  shows "\<exists>sel. select_columns clinical_columns raw = Inr sel \<and> columns sel = clinical_columns
          \<and> index sel = index raw \<and> list_all (\<lambda>r. length (snd r) = 3) (rws sel)"
proof -
  have a: "\<And>l. l \<in> set clinical_columns \<Longrightarrow> filter (\<lambda>c. c = l) (columns raw) = [l]"
    using assms(2,3) by (auto intro: filter_eq_distinct)
  have b: "\<And>l r. l \<in> set clinical_columns \<Longrightarrow> r \<in> set (rws raw) \<Longrightarrow>
      \<exists>v. cells_where (\<lambda>c. c = l) (columns raw) (snd r) = [v]"
  proof -
    fix l r assume l: "l \<in> set clinical_columns" and r: "r \<in> set (rws raw)"
    have "l \<in> set (columns raw)" using l assms(3) by auto
    moreover have "length (snd r) = length (columns raw)" using assms(1) r by (rule wf_frame_row)
    ultimately show "\<exists>v. cells_where (\<lambda>c. c = l) (columns raw) (snd r) = [v]"
      using cells_where_eq_distinct[OF assms(2)] by blast
  qed
  have c: "\<not> list_ex (\<lambda>l. l \<notin> set (columns raw)) clinical_columns"
    using assms(3) by (auto simp: list_ex_iff)
  have d: "\<And>r. r \<in> set (rws raw) \<Longrightarrow>
     length (concat (map (\<lambda>l. cells_where (\<lambda>c. c = l) (columns raw) (snd r)) clinical_columns)) = 3"
  proof -
    fix r assume r: "r \<in> set (rws raw)"
    from b[OF _ r] obtain v1 v2 v3 where
      "cells_where (\<lambda>c. c = Str ''Complete TCGA ID'') (columns raw) (snd r) = [v1]"
      "cells_where (\<lambda>c. c = Str ''ER Status'') (columns raw) (snd r) = [v2]"
      "cells_where (\<lambda>c. c = Str ''AJCC Stage'') (columns raw) (snd r) = [v3]"
      unfolding clinical_columns_def by (metis list.set_intros(1) list.set_intros(2))
    then show "length (concat (map (\<lambda>l. cells_where (\<lambda>c. c = l) (columns raw) (snd r)) clinical_columns)) = 3"
      by (simp add: clinical_columns_def)
  qed
  have e: "concat (map (\<lambda>l. filter (\<lambda>c. c = l) (columns raw)) clinical_columns) = clinical_columns"
    using a by (simp add: clinical_columns_def)
  show ?thesis using c d e
    by (simp add: select_columns_def index_def list_all_iff comp_def)
qed

text \<open>
  Claim C4. For every clinical sheet (one cell per column in every row, column labels
  pairwise distinct as \<^verbatim>\<open>read_excel\<close> makes them, the three fields among them),
  \<^verbatim>\<open>load_clinical_data\<close> returns a table and raises nothing, whatever the category values
  are; the table has the three fields, and every row of it has an ER status equal to
  the string \<^verbatim>\<open>Negative\<close> or \<^verbatim>\<open>Positive\<close> and no missing value.
\<close>

theorem load_clinical_data_rows:
  assumes "wf_frame raw" and "distinct (columns raw)"
    and "set clinical_columns \<subseteq> set (columns raw)"
  shows "\<exists>out. load_clinical_data raw = Inr out \<and> columns out = clinical_columns
     \<and> (\<forall>r \<in> set (rws out). length (snd r) = 3
          \<and> (snd r ! 1 = Str ''Negative'' \<or> snd r ! 1 = Str ''Positive'')
          \<and> NA \<notin> set (snd r))"
proof -
  from select_clinical[OF assms] obtain sel where
    sel: "select_columns clinical_columns raw = Inr sel"
      "columns sel = clinical_columns" "list_all (\<lambda>r. length (snd r) = 3) (rws sel)" by blast
  have p: "col_positions (Str ''ER Status'') (dropna sel) = [1]"
    using sel(2) by (simp add: col_positions_ER dropna_def)
  show ?thesis using sel p
    by (auto simp: load_clinical_data_def er_filter_def isin_rows_def list_all_iff dropna_def)
qed

theorem load_clinical_data_rows_witness:
  "wf_frame ex_sheet \<and> distinct (columns ex_sheet)
   \<and> set clinical_columns \<subseteq> set (columns ex_sheet)
   \<and> (\<exists>out. load_clinical_data ex_sheet = Inr out \<and> columns out = clinical_columns
        \<and> (\<forall>r \<in> set (rws out). length (snd r) = 3
             \<and> (snd r ! 1 = Str ''Negative'' \<or> snd r ! 1 = Str ''Positive'')
             \<and> NA \<notin> set (snd r)))
   \<and> load_clinical_data ex_sheet = Inr ex_clinical"
proof -
  have h1: "wf_frame ex_sheet" by (simp add: wf_frame_def ex_sheet_def)
  have h2: "distinct (columns ex_sheet)" by (simp add: ex_sheet_def)
  have h3: "set clinical_columns \<subseteq> set (columns ex_sheet)"
    by (simp add: ex_sheet_def clinical_columns_def)
  have ld: "load_clinical_data ex_sheet = Inr ex_clinical"
    by (simp add: load_clinical_data_def select_columns_def cells_where_def dropna_def
                  er_filter_def isin_rows_def col_positions_def clinical_columns_def upt_rec
                  ex_sheet_def ex_clinical_def)
  from load_clinical_data_rows[OF h1 h2 h3] h1 h2 h3 ld show ?thesis by blast
qed

text \<open>
  Claim C7. The category filter of the clinical loader is idempotent: dropping the missing
  values of the loader's output and keeping its rows with ER status \<^verbatim>\<open>Negative\<close> or
  \<^verbatim>\<open>Positive\<close> returns that output unchanged.
\<close>

theorem clinical_filter_idempotent:
  assumes "load_clinical_data raw = Inr out"
  shows "er_filter (dropna out) = Inr out"
proof -
  from assms obtain sel where "er_filter (dropna sel) = Inr out"
    by (auto simp: load_clinical_data_def split: sum.splits)
  then obtain p where p: "col_positions (Str ''ER Status'') (dropna sel) = [p]"
    and out: "out = (dropna sel)\<lparr>rws := filter (\<lambda>r. snd r ! p \<in> set [Str ''Negative'', Str ''Positive''])
                                            (rws (dropna sel))\<rparr>"
    by (auto simp: er_filter_def isin_rows_def split: list.splits)
  have "dropna out = out"
    unfolding out by (simp add: dropna_def conj_ac cong: conj_cong)
  moreover have "col_positions (Str ''ER Status'') out = [p]"
    using p by (simp add: out col_positions_def)
  ultimately show ?thesis
    by (simp add: er_filter_def isin_rows_def out dropna_def)
qed

theorem clinical_filter_idempotent_witness:
  "load_clinical_data ex_sheet = Inr ex_clinical \<and> er_filter (dropna ex_clinical) = Inr ex_clinical"
proof -
  have ld: "load_clinical_data ex_sheet = Inr ex_clinical"
    by (simp add: load_clinical_data_def select_columns_def cells_where_def dropna_def
                  er_filter_def isin_rows_def col_positions_def clinical_columns_def upt_rec
                  ex_sheet_def ex_clinical_def)
  from clinical_filter_idempotent[OF ld] ld show ?thesis by simp
qed

section \<open>Properties of the category encoder\<close>

lemma row3: "length r = 3 \<Longrightarrow> r = [r ! 0, r ! 1, r ! 2]"
  by (cases r; simp; cases "tl r"; simp; cases "tl (tl r)"; auto)

lemma clinical_row3:
  assumes "columns t = clinical_columns" "wf_frame t" "r \<in> set (rws t)"
  shows "snd r = [snd r ! 0, snd r ! 1, snd r ! 2]"
proof -
  have "length (snd r) = 3" using wf_frame_row[OF assms(2,3)] assms(1) by (simp add: clinical_columns_def)
  then show ?thesis by (rule row3)
qed

lemma sort_two: "distinct ys \<Longrightarrow> set ys = {a, b} \<Longrightarrow> a < b \<Longrightarrow> sort ys = [a, (b::'a::linorder)]"
proof -
  assume d: "distinct ys" and s: "set ys = {a, b}" and ab: "a < b"
  have "sort ys = sort (remdups ys)" using d by (simp only: distinct_remdups_id)
  also have "\<dots> = sorted_list_of_set (set ys)" by (simp add: sorted_list_of_set_sort_remdups)
  also have "\<dots> = [a, b]" using s ab by (auto simp: insort_is_Cons)
  finally show ?thesis .
qed

lemma categories_two:
  assumes "set vs = {Str ''Negative'', Str ''Positive''}"
  shows "categories vs = [Str ''Negative'', Str ''Positive'']"
proof -
  define xs where "xs = remdups (filter (\<lambda>v. v \<noteq> NA) vs)"
  have sx: "set xs = {Str ''Negative'', Str ''Positive''}" using assms by (auto simp: xs_def)
  have dx: "distinct xs" by (simp add: xs_def)
  have nums: "filter is_Num xs = []" using sx by (auto simp: filter_empty_conv)
  have strs: "filter is_Str xs = xs" using sx by (auto simp: filter_id_conv)
  have "inj_on the_Str (set xs)" using sx by (auto simp: inj_on_def)
  then have d2: "distinct (map the_Str xs)" using dx by (simp add: distinct_map)
  have s2: "set (map the_Str xs) = {''Negative'', ''Positive''}" using sx by simp
  have "sort (map the_Str xs) = [''Negative'', ''Positive'']"
    using d2 s2 by (rule sort_two) simp
  then show ?thesis by (simp add: categories_def xs_def[symmetric] Let_def nums strs)
qed

lemma indicator_eq [simp]: "indicator b = Num 1 \<longleftrightarrow> b" "indicator b = Num 0 \<longleftrightarrow> \<not> b"
  by (simp_all add: indicator_def)

lemma encode_both_present:
  assumes c: "columns t = clinical_columns" and wf: "wf_frame t"
    and both: "set (map (\<lambda>r. snd r ! 1) (rws t)) = {Str ''Negative'', Str ''Positive''}"
  shows "snd (encode_estrogen_receptor t) =
     Inr \<lparr>columns = clinical_columns,
          rws = map (\<lambda>r. (fst r, [snd r ! 0, indicator (snd r ! 1 = Str ''Negative''), snd r ! 2])) (rws t)\<rparr>"
proof -
  let ?s = "map (\<lambda>r. (fst r, snd r ! 1)) (rws t)"
  have gs: "get_series (Str ''ER Status'') t = Inr ?s"
    by (simp add: get_series_def col_positions_ER[OF c])
  have cats: "categories (map snd ?s) = [Str ''Negative'', Str ''Positive'']"
    using both by (intro categories_two) (simp add: comp_def)
  have dum: "get_dummies ?s = \<lparr>columns = [Str ''Negative'', Str ''Positive''],
       rws = map (\<lambda>r. (fst r, [indicator (snd r ! 1 = Str ''Negative''), indicator (snd r ! 1 = Str ''Positive'')])) (rws t)\<rparr>"
    unfolding get_dummies_def cats Let_def by (simp add: comp_def)
  have cc: "concat_axis1 (get_dummies ?s) t =
      \<lparr>columns = [Str ''Negative'', Str ''Positive'', Str ''Complete TCGA ID'', Str ''ER Status'', Str ''AJCC Stage''],
       rws = map (\<lambda>r. (fst r, [indicator (snd r ! 1 = Str ''Negative''), indicator (snd r ! 1 = Str ''Positive''),
                               snd r ! 0, snd r ! 1, snd r ! 2])) (rws t)\<rparr>"
  proof -
    have "map (\<lambda>ab. (fst (fst ab), snd (fst ab) @ snd (snd ab)))
            (zip (map (\<lambda>r. (fst r, [indicator (snd r ! 1 = Str ''Negative''), indicator (snd r ! 1 = Str ''Positive'')])) (rws t)) (rws t))
        = map (\<lambda>r. (fst r, [indicator (snd r ! 1 = Str ''Negative''), indicator (snd r ! 1 = Str ''Positive'')] @ snd r)) (rws t)"
      by (simp add: zip_map1 zip_same_conv_map comp_def)
    also have "\<dots> = map (\<lambda>r. (fst r, [indicator (snd r ! 1 = Str ''Negative''), indicator (snd r ! 1 = Str ''Positive''),
                               snd r ! 0, snd r ! 1, snd r ! 2])) (rws t)"
    proof (rule map_cong[OF refl])
      fix r assume "r \<in> set (rws t)"
      from clinical_row3[OF c wf this] obtain a b d where "snd r = [a, b, d]" by blast
      then show "(fst r, [indicator (snd r ! 1 = Str ''Negative''), indicator (snd r ! 1 = Str ''Positive'')] @ snd r)
          = (fst r, [indicator (snd r ! 1 = Str ''Negative''), indicator (snd r ! 1 = Str ''Positive''), snd r ! 0, snd r ! 1, snd r ! 2])"
        by simp
    qed
    finally show ?thesis unfolding dum by (simp add: concat_axis1_def c clinical_columns_def)
  qed
  have d1: "drop_columns [Str ''ER Status''] (concat_axis1 (get_dummies ?s) t) = Inr
      \<lparr>columns = [Str ''Negative'', Str ''Positive'', Str ''Complete TCGA ID'', Str ''AJCC Stage''],
       rws = map (\<lambda>r. (fst r, [indicator (snd r ! 1 = Str ''Negative''), indicator (snd r ! 1 = Str ''Positive''),
                               snd r ! 0, snd r ! 2])) (rws t)\<rparr>"
    unfolding cc by (simp add: drop_columns_def cells_where_def comp_def)
  have d2: "drop_columns [Str ''Positive'']
      \<lparr>columns = [Str ''Negative'', Str ''Positive'', Str ''Complete TCGA ID'', Str ''AJCC Stage''],
       rws = map (\<lambda>r. (fst r, [indicator (snd r ! 1 = Str ''Negative''), indicator (snd r ! 1 = Str ''Positive''),
                               snd r ! 0, snd r ! 2])) (rws t)\<rparr> = Inr
      \<lparr>columns = [Str ''Negative'', Str ''Complete TCGA ID'', Str ''AJCC Stage''],
       rws = map (\<lambda>r. (fst r, [indicator (snd r ! 1 = Str ''Negative''), snd r ! 0, snd r ! 2])) (rws t)\<rparr>"
    by (simp add: drop_columns_def cells_where_def comp_def)
  have sel: "select_columns clinical_columns (rename_columns (Str ''Negative'') (Str ''ER Status'')
      \<lparr>columns = [Str ''Negative'', Str ''Complete TCGA ID'', Str ''AJCC Stage''],
       rws = map (\<lambda>r. (fst r, [indicator (snd r ! 1 = Str ''Negative''), snd r ! 0, snd r ! 2])) (rws t)\<rparr>) = Inr
      \<lparr>columns = clinical_columns,
       rws = map (\<lambda>r. (fst r, [snd r ! 0, indicator (snd r ! 1 = Str ''Negative''), snd r ! 2])) (rws t)\<rparr>"
    by (simp add: select_columns_def rename_columns_def cells_where_def clinical_columns_def comp_def)
  show ?thesis
    unfolding encode_estrogen_receptor_def snd_conv gs sum.case Let_def d1 d2 sel ..
qed


text \<open>
  Claim C1. Applied to a clinical table as the loader returns it (the three columns, one
  cell per column) in which both \<^verbatim>\<open>Negative\<close> and \<^verbatim>\<open>Positive\<close> occur and nothing else,
  \<^verbatim>\<open>encode_estrogen_receptor\<close> returns a table with exactly the columns
  \<^verbatim>\<open>Complete TCGA ID\<close>, \<^verbatim>\<open>ER Status\<close>, \<^verbatim>\<open>AJCC Stage\<close>, in that order, and the same rows:
  in every row the new \<^verbatim>\<open>ER Status\<close> is 1 exactly when the original status was
  \<^verbatim>\<open>Negative\<close> and 0 exactly when it was \<^verbatim>\<open>Positive\<close>; the identifier, the stage and
  the row label are unchanged.
\<close>

theorem encode_estrogen_receptor_correct:
  assumes "columns t = clinical_columns" and "wf_frame t"
    and "set (map (\<lambda>r. snd r ! 1) (rws t)) = {Str ''Negative'', Str ''Positive''}"
  shows "\<exists>out. snd (encode_estrogen_receptor t) = Inr out
      \<and> columns out = [Str ''Complete TCGA ID'', Str ''ER Status'', Str ''AJCC Stage'']
      \<and> wf_frame out \<and> length (rws out) = length (rws t)
      \<and> (\<forall>k < length (rws t).
            (snd (rws out ! k) ! 1 = Num 1 \<longleftrightarrow> snd (rws t ! k) ! 1 = Str ''Negative'')
          \<and> (snd (rws out ! k) ! 1 = Num 0 \<longleftrightarrow> snd (rws t ! k) ! 1 = Str ''Positive'')
          \<and> fst (rws out ! k) = fst (rws t ! k)
          \<and> snd (rws out ! k) ! 0 = snd (rws t ! k) ! 0
          \<and> snd (rws out ! k) ! 2 = snd (rws t ! k) ! 2)"
proof -
  have two: "\<And>k. k < length (rws t) \<Longrightarrow>
      snd (rws t ! k) ! 1 = Str ''Negative'' \<or> snd (rws t ! k) ! 1 = Str ''Positive''"
  proof -
    fix k assume "k < length (rws t)"
    then have "snd (rws t ! k) ! 1 \<in> set (map (\<lambda>r. snd r ! 1) (rws t))" by simp
    then show "snd (rws t ! k) ! 1 = Str ''Negative'' \<or> snd (rws t ! k) ! 1 = Str ''Positive''"
      using assms(3) by auto
  qed
  show ?thesis
    unfolding encode_both_present[OF assms]
    using two by (auto simp: clinical_columns_def wf_frame_def list_all_iff)
qed

theorem encode_estrogen_receptor_correct_witness:
  "columns ex_clinical = clinical_columns \<and> wf_frame ex_clinical
   \<and> set (map (\<lambda>r. snd r ! 1) (rws ex_clinical)) = {Str ''Negative'', Str ''Positive''}
   \<and> (\<exists>out. snd (encode_estrogen_receptor ex_clinical) = Inr out
        \<and> columns out = [Str ''Complete TCGA ID'', Str ''ER Status'', Str ''AJCC Stage'']
        \<and> map (\<lambda>r. snd r ! 1) (rws out) = [Num 1, Num 0])
   \<and> snd (encode_estrogen_receptor ex_clinical) = Inr ex_encoded"
proof -
  have h1: "columns ex_clinical = clinical_columns"
    by (simp add: ex_clinical_def clinical_columns_def)
  have h2: "wf_frame ex_clinical" by (simp add: wf_frame_def ex_clinical_def)
  have h3: "set (map (\<lambda>r. snd r ! 1) (rws ex_clinical)) = {Str ''Negative'', Str ''Positive''}"
    by (simp add: ex_clinical_def)
  have ev: "snd (encode_estrogen_receptor ex_clinical) = Inr ex_encoded"
    unfolding encode_both_present[OF h1 h2 h3]
    by (simp add: ex_clinical_def ex_encoded_def clinical_columns_def indicator_def)
  have "map (\<lambda>r. snd r ! 1) (rws ex_encoded) = [Num 1, Num 0]" by (simp add: ex_encoded_def)
  with encode_estrogen_receptor_correct[OF h1 h2 h3] h1 h2 h3 ev show ?thesis by auto
qed

lemma set_categories: "set (categories vs) = set vs - {NA}"
proof -
  define xs where "xs = remdups (filter (\<lambda>v. v \<noteq> NA) vs)"
  have sx: "set xs = set vs - {NA}" by (auto simp: xs_def)
  have a: "set (map Num (sort (map the_Num (filter is_Num xs)))) = {x \<in> set xs. is_Num x}"
    by (auto simp: image_iff)
  have b: "set (map Str (sort (map the_Str (filter is_Str xs)))) = {x \<in> set xs. is_Str x}"
    by (auto simp: image_iff)
  have "\<And>x. x \<in> set xs \<Longrightarrow> is_Num x \<or> is_Str x"
  proof -
    fix x assume "x \<in> set xs"
    then have "x \<noteq> NA" using sx by auto
    then show "is_Num x \<or> is_Str x" by (cases x) simp_all
  qed
  then have "{x \<in> set xs. is_Num x} \<union> {x \<in> set xs. is_Str x} = set xs" by auto
  then show ?thesis
    unfolding categories_def xs_def[symmetric] Let_def set_append a b using sx by simp
qed

lemma drop_columns_Inl: "l \<in> set ls \<Longrightarrow> l \<notin> set (columns df) \<Longrightarrow> drop_columns ls df = Inl KeyError"
  by (auto simp: drop_columns_def list_ex_iff)

lemma drop_columns_Inr:
  "set ls \<subseteq> set (columns df) \<Longrightarrow>
   \<exists>d. drop_columns ls df = Inr d \<and> columns d = filter (\<lambda>c. c \<notin> set ls) (columns df)"
  by (auto simp: drop_columns_def list_ex_iff)

lemma select_columns_Inl: "l \<in> set ls \<Longrightarrow> l \<notin> set (columns df) \<Longrightarrow> select_columns ls df = Inl KeyError"
  by (auto simp: select_columns_def list_ex_iff)

lemma encode_category_absent:
  assumes c: "columns t = clinical_columns"
    and absent: "Str ''Negative'' \<notin> set (map (\<lambda>r. snd r ! 1) (rws t))
               \<or> Str ''Positive'' \<notin> set (map (\<lambda>r. snd r ! 1) (rws t))"
  shows "snd (encode_estrogen_receptor t) = Inl KeyError"
proof -
  let ?s = "map (\<lambda>r. (fst r, snd r ! 1)) (rws t)"
  let ?vs = "map (\<lambda>r. snd r ! 1) (rws t)"
  let ?cats = "categories ?vs"
  let ?F = "concat_axis1 (get_dummies ?s) t"
  have gs: "get_series (Str ''ER Status'') t = Inr ?s"
    by (simp add: get_series_def col_positions_ER[OF c])
  have sc: "set ?cats = set ?vs - {NA}" by (rule set_categories)
  have colsF: "columns ?F = ?cats @ clinical_columns"
    by (simp add: concat_axis1_def get_dummies_def Let_def c comp_def)
  have "set [Str ''ER Status''] \<subseteq> set (columns ?F)" unfolding colsF by (simp add: clinical_columns_def)
  from drop_columns_Inr[OF this] obtain er1 where
    er1: "drop_columns [Str ''ER Status''] ?F = Inr er1"
    and cols1: "columns er1 = filter (\<lambda>c. c \<noteq> Str ''ER Status'') ?cats
                  @ [Str ''Complete TCGA ID'', Str ''AJCC Stage'']"
    unfolding colsF by (auto simp: clinical_columns_def)
  have res: "snd (encode_estrogen_receptor t) =
      (case drop_columns [Str ''Positive''] er1 of Inl e \<Rightarrow> Inl e
       | Inr er2 \<Rightarrow> select_columns clinical_columns
                      (rename_columns (Str ''Negative'') (Str ''ER Status'') er2))"
    unfolding encode_estrogen_receptor_def snd_conv gs sum.case Let_def er1 ..
  show ?thesis
  proof (cases "Str ''Positive'' \<in> set ?vs")
    case False
    then have "Str ''Positive'' \<notin> set (columns er1)" using sc by (simp add: cols1)
    then have "drop_columns [Str ''Positive''] er1 = Inl KeyError"
      by (intro drop_columns_Inl[of "Str ''Positive''"]) simp_all
    then show ?thesis by (simp add: res)
  next
    case True
    then have noNeg: "Str ''Negative'' \<notin> set ?vs" using absent by blast
    have "set [Str ''Positive''] \<subseteq> set (columns er1)" using True sc by (simp add: cols1)
    from drop_columns_Inr[OF this] obtain er2 where
      er2: "drop_columns [Str ''Positive''] er1 = Inr er2"
      and cols2: "columns er2 = filter (\<lambda>c. c \<notin> set [Str ''Positive'']) (columns er1)" by blast
    have "Str ''Negative'' \<notin> set (columns er2)" "Str ''ER Status'' \<notin> set (columns er2)"
      using noNeg sc by (auto simp: cols2 cols1)
    then have "Str ''ER Status'' \<notin> set (columns (rename_columns (Str ''Negative'') (Str ''ER Status'') er2))"
      by (auto simp: rename_columns_def)
    then have "select_columns clinical_columns (rename_columns (Str ''Negative'') (Str ''ER Status'') er2) = Inl KeyError"
      by (intro select_columns_Inl[of "Str ''ER Status''"]) (simp_all add: clinical_columns_def)
    then show ?thesis by (simp add: res er2)
  qed
qed

text \<open>
  Claim C9. On a clinical table, as the loader returns it, in which only one of the two
  categories occurs (every row \<^verbatim>\<open>Negative\<close>, or every row \<^verbatim>\<open>Positive\<close>),
  \<^verbatim>\<open>encode_estrogen_receptor\<close> raises KeyError and returns no table: there is an
  indicator column only for a category that occurs, so either the drop of \<^verbatim>\<open>Positive\<close>
  or the final selection of \<^verbatim>\<open>ER Status\<close> finds no such column.
\<close>

theorem encode_single_category_KeyError:
  assumes "columns t = clinical_columns"
    and "list_all (\<lambda>r. snd r ! 1 = Str ''Negative'') (rws t)
       \<or> list_all (\<lambda>r. snd r ! 1 = Str ''Positive'') (rws t)"
  shows "snd (encode_estrogen_receptor t) = Inl KeyError"
proof -
  have "Str ''Negative'' \<notin> set (map (\<lambda>r. snd r ! 1) (rws t))
      \<or> Str ''Positive'' \<notin> set (map (\<lambda>r. snd r ! 1) (rws t))"
  proof (rule disjE[OF assms(2)])
    assume "list_all (\<lambda>r. snd r ! 1 = Str ''Negative'') (rws t)"
    then have "Str ''Positive'' \<notin> set (map (\<lambda>r. snd r ! 1) (rws t))"
      by (fastforce simp: list_all_iff)
    then show ?thesis ..
  next
    assume "list_all (\<lambda>r. snd r ! 1 = Str ''Positive'') (rws t)"
    then have "Str ''Negative'' \<notin> set (map (\<lambda>r. snd r ! 1) (rws t))"
      by (fastforce simp: list_all_iff)
    then show ?thesis ..
  qed
  with assms(1) show ?thesis by (rule encode_category_absent)
qed

theorem encode_single_category_KeyError_witness:
  "load_clinical_data ex_sheet_negative = Inr ex_clinical_negative
   \<and> columns ex_clinical_negative = clinical_columns
   \<and> list_all (\<lambda>r. snd r ! 1 = Str ''Negative'') (rws ex_clinical_negative)
   \<and> snd (encode_estrogen_receptor ex_clinical_negative) = Inl KeyError"
proof -
  have ld: "load_clinical_data ex_sheet_negative = Inr ex_clinical_negative"
    by (simp add: load_clinical_data_def select_columns_def cells_where_def dropna_def
                  er_filter_def isin_rows_def col_positions_def clinical_columns_def upt_rec
                  ex_sheet_negative_def ex_clinical_negative_def)
  have h1: "columns ex_clinical_negative = clinical_columns"
    by (simp add: ex_clinical_negative_def clinical_columns_def)
  have h2: "list_all (\<lambda>r. snd r ! 1 = Str ''Negative'') (rws ex_clinical_negative)"
    by (simp add: ex_clinical_negative_def)
  from encode_single_category_KeyError[OF h1 disjI1[OF h2]] ld h1 h2 show ?thesis by simp
qed

section \<open>Properties of the sample matcher\<close>

lemmas table_eval =
  create_data_structures_with_matching_sample_def get_series_def col_positions_def
  contains_assign_def re_plain_def isin_rows_def set_index_def
  reindex_def index_def cells_where_def Let_def upt_rec sublist_code

lemma matcher_example:
  "create_data_structures_with_matching_sample re_plain ex_expression ex_clinical
     = ((ex_normalized, ex_clinical), Inr (ex_matched, ex_clinical))"
  by (simp add: table_eval ex_expression_def ex_clinical_def ex_normalized_def ex_matched_def)

lemma col_positions_single:
  "col_positions l df = [p] \<Longrightarrow> p < length (columns df) \<and> columns df ! p = l"
proof -
  assume "col_positions l df = [p]"
  then have "p \<in> set (filter (\<lambda>p. columns df ! p = l) [0..<length (columns df)])"
    by (simp add: col_positions_def)
  then show ?thesis by simp
qed

lemma col_positions_cong: "columns a = columns b \<Longrightarrow> col_positions l a = col_positions l b"
  by (simp add: col_positions_def)

lemma reindex_index: "reindex target df = Inr out \<Longrightarrow> index out = target"
  by (auto simp: reindex_def index_def comp_def split: if_splits)

text \<open>
  Claim C2. For every pair of tables \<^verbatim>\<open>create_data_structures_with_matching_sample\<close>
  returns, the row index of the expression table is the \<^verbatim>\<open>Complete TCGA ID\<close> column of
  the clinical table: the same values in the same order.
\<close>

theorem matched_index_aligned:
  assumes "snd (create_data_structures_with_matching_sample rx genes_expression estrogen_receptor)
             = Inr (expression, clinical)"
  shows "\<exists>ids. get_series (Str ''Complete TCGA ID'') clinical = Inr ids
           \<and> index expression = map snd ids"
  using assms
  by (auto simp: create_data_structures_with_matching_sample_def Let_def reindex_index
           split: sum.splits option.splits)

theorem matched_index_aligned_witness:
  "snd (create_data_structures_with_matching_sample re_plain ex_expression ex_clinical)
     = Inr (ex_matched, ex_clinical)
   \<and> (\<exists>ids. get_series (Str ''Complete TCGA ID'') ex_clinical = Inr ids
           \<and> index ex_matched = map snd ids)
   \<and> index ex_matched = [Str ''TCGA-A1-01'', Str ''TCGA-A2-02'']"
proof -
  have h: "snd (create_data_structures_with_matching_sample re_plain ex_expression ex_clinical)
             = Inr (ex_matched, ex_clinical)"
    by (simp add: matcher_example)
  have "index ex_matched = [Str ''TCGA-A1-01'', Str ''TCGA-A2-02'']"
    by (simp add: index_def ex_matched_def)
  with matched_index_aligned[OF h] h show ?thesis by simp
qed

lemma contains_assign_Inr:
  assumes "contains_assign rx l sid df = Inr df'"
  obtains p pat found where "col_positions l df = [p]" "sid = Str pat" "rx pat = Some found"
    "list_all (\<lambda>r. is_Str (snd r ! p)) (rws df)"
    "df' = df\<lparr>rws := map (\<lambda>r. if found (the_Str (snd r ! p))
                                 then (fst r, (snd r)[p := sid]) else r) (rws df)\<rparr>"
  using assms
  by (auto simp: contains_assign_def list_ex_iff list_all_iff
           split: list.splits cell.splits option.splits if_splits)

lemma cells_where_update:
  "p < length cols \<Longrightarrow> \<not> P (cols ! p) \<Longrightarrow> cells_where P cols (r[p := v]) = cells_where P cols r"
proof (induction cols arbitrary: p r)
  case Nil
  then show ?case by simp
next
  case (Cons c cols)
  show ?case
  proof (cases r)
    case Nil
    then show ?thesis by simp
  next
    case (Cons x xs)
    show ?thesis
    proof (cases p)
      case 0
      then show ?thesis using Cons Cons.prems by (simp add: cells_where_def)
    next
      case (Suc q)
      then have "cells_where P cols (xs[q := v]) = cells_where P cols xs"
        using Cons.IH[of q xs] Cons.prems by simp
      then show ?thesis using Cons Suc by (simp add: cells_where_def)
    qed
  qed
qed

lemma contains_assign_frame:
  assumes "contains_assign rx l sid df = Inr df'"
  shows "columns df' = columns df \<and> index df' = index df
       \<and> map (\<lambda>r. cells_where (\<lambda>c. c \<notin> set [l]) (columns df) (snd r)) (rws df')
         = map (\<lambda>r. cells_where (\<lambda>c. c \<notin> set [l]) (columns df) (snd r)) (rws df)"
proof -
  from assms obtain p pat found where p: "col_positions l df = [p]"
    and df': "df' = df\<lparr>rws := map (\<lambda>r. if found (the_Str (snd r ! p))
                                 then (fst r, (snd r)[p := sid]) else r) (rws df)\<rparr>"
    by (rule contains_assign_Inr)
  from col_positions_single[OF p] have pl: "p < length (columns df)" "\<not> (columns df ! p \<noteq> l)"
    by simp_all
  have upd: "\<And>r. cells_where (\<lambda>c. c \<noteq> l) (columns df) ((snd r)[p := sid])
               = cells_where (\<lambda>c. c \<noteq> l) (columns df) (snd r)"
    using pl by (rule cells_where_update)
  show ?thesis unfolding df' by (simp add: index_def comp_def upd if_distrib cong: if_cong)
qed

lemma overwrite_names_frame:
  "overwrite_names rx sids df = (df', e) \<Longrightarrow>
   columns df' = columns df \<and> index df' = index df
   \<and> map (\<lambda>r. cells_where (\<lambda>c. c \<notin> set [Str ''NAME'']) (columns df) (snd r)) (rws df')
     = map (\<lambda>r. cells_where (\<lambda>c. c \<notin> set [Str ''NAME'']) (columns df) (snd r)) (rws df)"
proof (induction sids arbitrary: df)
  case Nil
  then show ?case by simp
next
  case (Cons sid sids)
  show ?case
  proof (cases "contains_assign rx (Str ''NAME'') sid df")
    case (Inl err)
    then show ?thesis using Cons.prems by simp
  next
    case (Inr df1)
    then have "overwrite_names rx sids df1 = (df', e)" using Cons.prems by simp
    from Cons.IH[OF this] contains_assign_frame[OF Inr] show ?thesis by simp
  qed
qed

lemma map_pair_eq:
  "map f xs = map f ys \<Longrightarrow> map g xs = map g ys \<Longrightarrow>
   map (\<lambda>x. (f x, g x)) xs = map (\<lambda>x. (f x, g x)) ys"
proof (induction xs arbitrary: ys)
  case Nil
  then show ?case by simp
next
  case (Cons x xs)
  then obtain y ys' where "ys = y # ys'" by (cases ys) auto
  with Cons show ?case by simp
qed

lemma drop_columns_cong:
  assumes "columns a = columns b" and "index a = index b"
    and "map (\<lambda>r. cells_where (\<lambda>c. c \<notin> set ls) (columns b) (snd r)) (rws a)
       = map (\<lambda>r. cells_where (\<lambda>c. c \<notin> set ls) (columns b) (snd r)) (rws b)"
  shows "drop_columns ls a = drop_columns ls b"
proof -
  have "map fst (rws a) = map fst (rws b)" using assms(2) by (simp add: index_def)
  from map_pair_eq[OF this assms(3)] show ?thesis
    using assms(1) by (simp add: drop_columns_def)
qed

lemma matcher_state:
  "fst (create_data_structures_with_matching_sample rx ge er) =
     (case get_series (Str ''Complete TCGA ID'') er of
        Inl e \<Rightarrow> (ge, er)
      | Inr s \<Rightarrow> (fst (overwrite_names rx (map snd s) ge), er))"
  by (cases "get_series (Str ''Complete TCGA ID'') er")
     (simp_all add: create_data_structures_with_matching_sample_def Let_def)

text \<open>
  Claim C6, as amended. \<^verbatim>\<open>encode_estrogen_receptor\<close> and \<^verbatim>\<open>get_std\<close> leave the table
  they receive unchanged, and \<^verbatim>\<open>create_data_structures_with_matching_sample\<close> leaves the
  clinical table unchanged; of the expression table it receives it overwrites the
  \<^verbatim>\<open>NAME\<close> column and nothing else: the column labels, the row index and the table
  without its \<^verbatim>\<open>NAME\<close> column are the same after the call as before.
\<close>

theorem inputs_after_calls:
  "fst (encode_estrogen_receptor t) = t \<and> fst (get_std t) = t
   \<and> snd (fst (create_data_structures_with_matching_sample rx ge er)) = er
   \<and> columns (fst (fst (create_data_structures_with_matching_sample rx ge er))) = columns ge
   \<and> index (fst (fst (create_data_structures_with_matching_sample rx ge er))) = index ge
   \<and> drop_columns [Str ''NAME''] (fst (fst (create_data_structures_with_matching_sample rx ge er)))
       = drop_columns [Str ''NAME''] ge"
proof -
  define ge' where "ge' = fst (fst (create_data_structures_with_matching_sample rx ge er))"
  have enc: "fst (encode_estrogen_receptor t) = t" by (simp add: encode_estrogen_receptor_def)
  have std: "fst (get_std t) = t" by (simp add: get_std_def)
  have er: "snd (fst (create_data_structures_with_matching_sample rx ge er)) = er"
    unfolding matcher_state by (cases "get_series (Str ''Complete TCGA ID'') er") simp_all
  have fr: "columns ge' = columns ge \<and> index ge' = index ge
     \<and> map (\<lambda>r. cells_where (\<lambda>c. c \<notin> set [Str ''NAME'']) (columns ge) (snd r)) (rws ge')
     = map (\<lambda>r. cells_where (\<lambda>c. c \<notin> set [Str ''NAME'']) (columns ge) (snd r)) (rws ge)"
  proof (cases "get_series (Str ''Complete TCGA ID'') er")
    case (Inl e)
    then have "ge' = ge" unfolding ge'_def matcher_state by simp
    then show ?thesis by simp
  next
    case (Inr s)
    then have "ge' = fst (overwrite_names rx (map snd s) ge)" unfolding ge'_def matcher_state by simp
    then have "overwrite_names rx (map snd s) ge = (ge', snd (overwrite_names rx (map snd s) ge))" by simp
    then show ?thesis by (rule overwrite_names_frame)
  qed
  have "drop_columns [Str ''NAME''] ge' = drop_columns [Str ''NAME''] ge"
    using fr by (intro drop_columns_cong) (elim conjE, assumption)+
  with enc std er fr show ?thesis unfolding ge'_def by (intro conjI) (elim conjE, assumption)+
qed

text \<open>
  The claim as stated fails: after the call on the tables of the specification's example
  the caller's expression table holds the clinical identifiers in its \<^verbatim>\<open>NAME\<close> column.
\<close>

theorem matcher_modifies_expression_table:
  "fst (fst (create_data_structures_with_matching_sample re_plain ex_expression ex_clinical)) = ex_normalized
   \<and> ex_normalized \<noteq> ex_expression"
  by (simp add: matcher_example) (simp add: ex_normalized_def ex_expression_def)

lemma get_series_Inr:
  "get_series l df = Inr s \<Longrightarrow>
   \<exists>p. col_positions l df = [p] \<and> s = map (\<lambda>r. (fst r, snd r ! p)) (rws df)"
  by (auto simp: get_series_def split: list.splits)

lemma contains_assign_names:
  assumes wf: "wf_frame df" and gs: "get_series l df = Inr names"
    and st: "list_all (\<lambda>v. is_Str (snd v)) names"
    and ca: "contains_assign rx l sid df = Inr df'"
  shows "wf_frame df' \<and> is_Str sid
       \<and> get_series l df'
           = Inr (map (\<lambda>v. (fst v, Str (overwrite_step rx (the_Str (snd v)) (the_Str sid)))) names)"
proof -
  from ca obtain p pat found where p: "col_positions l df = [p]" and sid: "sid = Str pat"
    and rx: "rx pat = Some found"
    and df': "df' = df\<lparr>rws := map (\<lambda>r. if found (the_Str (snd r ! p))
                                 then (fst r, (snd r)[p := sid]) else r) (rws df)\<rparr>"
    by (rule contains_assign_Inr)
  from gs p have names: "names = map (\<lambda>r. (fst r, snd r ! p)) (rws df)"
    by (simp add: get_series_def)
  have pl: "p < length (columns df)" using col_positions_single[OF p] by simp
  have wf': "wf_frame df'"
    using wf unfolding df' by (auto simp: wf_frame_def list_all_iff)
  have p': "col_positions l df' = [p]" using p by (simp add: df' col_positions_def)
  have "map (\<lambda>r. (fst r, snd r ! p)) (rws df')
      = map (\<lambda>r. (fst r, Str (overwrite_step rx (the_Str (snd r ! p)) pat))) (rws df)"
    unfolding df'
  proof (simp, intro ballI)
    fix r assume r: "r \<in> set (rws df)"
    have len: "p < length (snd r)" using wf r pl by (simp add: wf_frame_def list_all_iff)
    have "is_Str (snd r ! p)" using st r by (auto simp: names list_all_iff)
    then have s: "Str (the_Str (snd r ! p)) = snd r ! p" by simp
    show "(found (the_Str (snd r ! p)) \<longrightarrow>
             (snd r)[p := sid] ! p = Str (overwrite_step rx (the_Str (snd r ! p)) pat)) \<and>
          (\<not> found (the_Str (snd r ! p)) \<longrightarrow>
             snd r ! p = Str (overwrite_step rx (the_Str (snd r ! p)) pat))"
      using len s by (simp add: overwrite_step_def sid rx)
  qed
  then show ?thesis using wf' p' sid by (simp add: get_series_def names comp_def)
qed

lemma overwrite_names_names:
  assumes "wf_frame df" and "get_series (Str ''NAME'') df = Inr names"
    and "list_all (\<lambda>v. is_Str (snd v)) names"
    and "overwrite_names rx sids df = (df', None)"
  shows "get_series (Str ''NAME'') df'
       = Inr (map (\<lambda>v. (fst v, Str (final_name rx (map the_Str sids) (the_Str (snd v))))) names)"
  using assms
proof (induction sids arbitrary: df names)
  case Nil
  then have "map (\<lambda>v. (fst v, Str (the_Str (snd v)))) names = names"
    by (intro map_idI) (auto simp: list_all_iff)
  then show ?case using Nil by (simp add: final_name_def)
next
  case (Cons sid sids)
  show ?case
  proof (cases "contains_assign rx (Str ''NAME'') sid df")
    case (Inl e)
    then show ?thesis using Cons.prems(4) by simp
  next
    case (Inr df1)
    let ?names1 = "map (\<lambda>v. (fst v, Str (overwrite_step rx (the_Str (snd v)) (the_Str sid)))) names"
    from contains_assign_names[OF Cons.prems(1,2,3) Inr]
    have wf1: "wf_frame df1" and gs1: "get_series (Str ''NAME'') df1 = Inr ?names1" by simp_all
    have st1: "list_all (\<lambda>v. is_Str (snd v)) ?names1" by (simp add: list_all_iff)
    have lp: "overwrite_names rx sids df1 = (df', None)" using Cons.prems(4) Inr by simp
    from Cons.IH[OF wf1 gs1 st1 lp] show ?thesis
      by (simp add: final_name_def comp_def)
  qed
qed

text \<open>With an engine that finds a pattern without metacharacter where it is a substring,
  identifiers without metacharacter compile, so the loop raises nothing on names that
  are strings.\<close>

lemma overwrite_names_literal_returns:
  assumes "literal_engine rx" and "wf_frame df"
    and "get_series (Str ''NAME'') df = Inr names"
    and "list_all (\<lambda>v. is_Str (snd v)) names"
    and "list_all (\<lambda>sid. is_Str sid \<and> regex_literal (the_Str sid)) sids"
  shows "snd (overwrite_names rx sids df) = None"
  using assms(2-)
proof (induction sids arbitrary: df names)
  case Nil
  then show ?case by simp
next
  case (Cons sid sids)
  from Cons.prems(4) obtain pat where sid: "sid = Str pat" and lit: "regex_literal pat"
    by (cases sid) simp_all
  have rx: "rx pat = Some (sublist pat)" using assms(1) lit by (simp add: literal_engine_def)
  from get_series_Inr[OF Cons.prems(2)] obtain p where
    p: "col_positions (Str ''NAME'') df = [p]"
    and names: "names = map (\<lambda>r. (fst r, snd r ! p)) (rws df)" by blast
  have "\<not> list_ex (\<lambda>r. \<not> is_Str (snd r ! p)) (rws df)"
    using Cons.prems(3) by (auto simp: names list_all_iff list_ex_iff)
  then obtain df1 where ca: "contains_assign rx (Str ''NAME'') sid df = Inr df1"
    by (simp add: contains_assign_def p sid rx)
  let ?names1 = "map (\<lambda>v. (fst v, Str (overwrite_step rx (the_Str (snd v)) (the_Str sid)))) names"
  from contains_assign_names[OF Cons.prems(1,2,3) ca]
  have wf1: "wf_frame df1" and gs1: "get_series (Str ''NAME'') df1 = Inr ?names1" by simp_all
  have st1: "list_all (\<lambda>v. is_Str (snd v)) ?names1" by (simp add: list_all_iff)
  have "list_all (\<lambda>sid. is_Str sid \<and> regex_literal (the_Str sid)) sids"
    using Cons.prems(4) by simp
  from Cons.IH[OF wf1 gs1 st1 this] show ?case by (simp add: ca)
qed

lemma literal_engine_re_plain: "literal_engine re_plain"
  by (simp add: literal_engine_def re_plain_def)

lemma overwrite_step_literal:
  "literal_engine rx \<Longrightarrow> regex_literal sid \<Longrightarrow>
   overwrite_step rx n sid = (if sublist sid n then sid else n)"
  by (simp add: literal_engine_def overwrite_step_def)

lemma final_name_Cons: "final_name rx (sid # sids) n = final_name rx sids (overwrite_step rx n sid)"
  by (simp add: final_name_def)

lemma final_name_sublist:
  assumes "literal_engine rx"
  shows "list_all regex_literal sids \<Longrightarrow> sublist (final_name rx sids n) n"
proof (induction sids arbitrary: n)
  case Nil
  then show ?case by (simp add: final_name_def)
next
  case (Cons sid sids)
  then have lit: "regex_literal sid" and rest: "list_all regex_literal sids" by simp_all
  have a: "sublist (final_name rx sids (overwrite_step rx n sid)) (overwrite_step rx n sid)"
    using rest by (rule Cons.IH)
  have b: "sublist (overwrite_step rx n sid) n"
    by (simp add: overwrite_step_literal[OF assms lit])
  from a b have "sublist (final_name rx sids (overwrite_step rx n sid)) n"
    by (rule sublist_order.order_trans)
  then show ?case by (simp add: final_name_Cons)
qed

lemma final_name_stays:
  assumes "literal_engine rx"
  shows "list_all regex_literal post \<Longrightarrow> list_all (\<lambda>j. sublist j sid \<longrightarrow> j = sid) post \<Longrightarrow>
         final_name rx post sid = sid"
proof (induction post)
  case Nil
  then show ?case by (simp add: final_name_def)
next
  case (Cons j post)
  then have "overwrite_step rx sid j = sid"
    by (auto simp: overwrite_step_literal[OF assms])
  with Cons show ?case by (simp add: final_name_Cons)
qed

lemma final_name_winner:
  assumes "literal_engine rx" and "list_all regex_literal (sid # post)"
    and "sublist sid (final_name rx pre n)"
    and "list_all (\<lambda>j. sublist j sid \<longrightarrow> j = sid) post"
  shows "final_name rx (pre @ sid # post) n = sid"
proof -
  have lit: "regex_literal sid" "list_all regex_literal post" using assms(2) by simp_all
  have "final_name rx (pre @ sid # post) n
      = final_name rx post (overwrite_step rx (final_name rx pre n) sid)"
    by (simp add: final_name_def)
  also have "\<dots> = final_name rx post sid"
    using assms(3) by (simp add: overwrite_step_literal[OF assms(1) lit(1)])
  also have "\<dots> = sid" using assms(1) lit(2) assms(4) by (rule final_name_stays)
  finally show ?thesis .
qed

lemma overwrite_step_origin: "overwrite_step rx n sid = n \<or> overwrite_step rx n sid = sid"
  by (simp add: overwrite_step_def split: option.splits)

lemma final_name_origin: "final_name rx sids n = n \<or> final_name rx sids n \<in> set sids"
proof (induction sids arbitrary: n)
  case Nil
  then show ?case by (simp add: final_name_def)
next
  case (Cons sid sids)
  have "final_name rx sids (overwrite_step rx n sid) = overwrite_step rx n sid
     \<or> final_name rx sids (overwrite_step rx n sid) \<in> set sids" by (rule Cons.IH)
  then show ?case using overwrite_step_origin[of rx n sid] by (auto simp: final_name_Cons)
qed

lemma final_name_two:
  assumes "literal_engine rx" and "regex_literal a" and "regex_literal b" and "sublist a n"
  shows "final_name rx [a, b] n = (if sublist b a then b else a)"
  using assms(4)
  by (simp add: final_name_def overwrite_step_literal[OF assms(1,2)]
                overwrite_step_literal[OF assms(1,3)])

text \<open>
  Claim C5, as amended. For each clinical identifier, in the row order of the clinical
  table, every expression row whose \<^verbatim>\<open>NAME\<close>, as the identifiers before it left it, is
  matched by the identifier has its \<^verbatim>\<open>NAME\<close> overwritten with it; \<^verbatim>\<open>str.contains\<close>
  searches for the identifier as a regular expression, and an identifier without
  metacharacter matches exactly the names that contain it as a substring. When the loop
  raises nothing, the \<^verbatim>\<open>NAME\<close> a row ends with is therefore \<open>final_name\<close> of the
  identifiers and its first name: each identifier is applied to the result of those
  before it, not to the first name. For identifiers without metacharacter: an identifier
  wins when it is contained in the name as the identifiers before it left it and no later
  identifier other than itself is a substring of it; the final name is a substring of
  the first one; and of two identifiers, the first of them contained in the name, the
  second wins only if it is a substring of the first, and the first wins otherwise, also
  when the name contains both. The final name is always the first name or one of the
  identifiers.

  The hypothesis \<open>literal_engine rx\<close> is the fact about Python's regular expressions stated
  with the definition: a pattern without metacharacter is found where it is a substring.
\<close>

theorem overwrite_loop_final_names:
  assumes "wf_frame ge"
    and "get_series (Str ''NAME'') ge = Inr names"
    and "list_all (\<lambda>v. is_Str (snd v)) names"
    and "get_series (Str ''Complete TCGA ID'') er = Inr ids"
    and "snd (overwrite_names rx (map snd ids) ge) = None"
    and "literal_engine rx"
  shows "get_series (Str ''NAME'') (fst (fst (create_data_structures_with_matching_sample rx ge er)))
           = Inr (map (\<lambda>v. (fst v, Str (final_name rx (map the_Str (map snd ids)) (the_Str (snd v)))))
                      names)
       \<and> (\<forall>n sids sid. final_name rx (sids @ [sid]) n = overwrite_step rx (final_name rx sids n) sid)
       \<and> (\<forall>n sid. regex_literal sid
            \<longrightarrow> overwrite_step rx n sid = (if sublist sid n then sid else n))
       \<and> (\<forall>n pre sid post. list_all regex_literal (sid # post)
              \<and> sublist sid (final_name rx pre n)
              \<and> list_all (\<lambda>j. sublist j sid \<longrightarrow> j = sid) post
            \<longrightarrow> final_name rx (pre @ sid # post) n = sid)
       \<and> (\<forall>n sids. list_all regex_literal sids \<longrightarrow> sublist (final_name rx sids n) n)
       \<and> (\<forall>n a b. regex_literal a \<and> regex_literal b \<and> sublist a n
            \<longrightarrow> final_name rx [a, b] n = (if sublist b a then b else a))
       \<and> (\<forall>n sids. final_name rx sids n = n \<or> final_name rx sids n \<in> set sids)"
proof -
  have st: "fst (fst (create_data_structures_with_matching_sample rx ge er))
              = fst (overwrite_names rx (map snd ids) ge)"
    unfolding matcher_state by (simp add: assms(4))
  have "overwrite_names rx (map snd ids) ge = (fst (overwrite_names rx (map snd ids) ge), None)"
    using assms(5) by (simp add: prod_eq_iff)
  from overwrite_names_names[OF assms(1,2,3) this]
  have a: "get_series (Str ''NAME'') (fst (fst (create_data_structures_with_matching_sample rx ge er)))
           = Inr (map (\<lambda>v. (fst v, Str (final_name rx (map the_Str (map snd ids)) (the_Str (snd v)))))
                      names)"
    unfolding st .
  have b: "\<forall>n sids sid. final_name rx (sids @ [sid]) n = overwrite_step rx (final_name rx sids n) sid"
    by (simp add: final_name_def)
  have c: "\<forall>n sid. regex_literal sid
            \<longrightarrow> overwrite_step rx n sid = (if sublist sid n then sid else n)"
    using overwrite_step_literal[OF assms(6)] by blast
  have d: "\<forall>n pre sid post. list_all regex_literal (sid # post)
              \<and> sublist sid (final_name rx pre n)
              \<and> list_all (\<lambda>j. sublist j sid \<longrightarrow> j = sid) post
            \<longrightarrow> final_name rx (pre @ sid # post) n = sid"
    using final_name_winner[OF assms(6)] by blast
  have e: "\<forall>n sids. list_all regex_literal sids \<longrightarrow> sublist (final_name rx sids n) n"
    using final_name_sublist[OF assms(6)] by blast
  have f: "\<forall>n a b. regex_literal a \<and> regex_literal b \<and> sublist a n
            \<longrightarrow> final_name rx [a, b] n = (if sublist b a then b else a)"
    using final_name_two[OF assms(6)] by blast
  have g: "\<forall>n sids. final_name rx sids n = n \<or> final_name rx sids n \<in> set sids"
    using final_name_origin by blast
  from a b c d e f g show ?thesis by (intro conjI)
qed

theorem overwrite_loop_final_names_witness:
  "wf_frame ex_expression
   \<and> get_series (Str ''NAME'') ex_expression
        = Inr [(Num 0, Str ''TCGA-A1-01-sample''), (Num 1, Str ''TCGA-A2-02-sample'')]
   \<and> list_all (\<lambda>v. is_Str (snd v)) [(Num 0, Str ''TCGA-A1-01-sample''), (Num 1, Str ''TCGA-A2-02-sample'')]
   \<and> get_series (Str ''Complete TCGA ID'') ex_clinical
        = Inr [(Num 0, Str ''TCGA-A1-01''), (Num 2, Str ''TCGA-A2-02'')]
   \<and> snd (overwrite_names re_plain [Str ''TCGA-A1-01'', Str ''TCGA-A2-02''] ex_expression) = None
   \<and> literal_engine re_plain
   \<and> get_series (Str ''NAME'')
        (fst (fst (create_data_structures_with_matching_sample re_plain ex_expression ex_clinical)))
        = Inr [(Num 0, Str ''TCGA-A1-01''), (Num 1, Str ''TCGA-A2-02'')]
   \<and> list_all regex_literal [''TCGA-A1-01'', ''TCGA-A2-02'']
   \<and> sublist ''TCGA-A1-01'' (final_name re_plain [] ''TCGA-A1-01-sample'')
   \<and> list_all (\<lambda>j. sublist j ''TCGA-A1-01'' \<longrightarrow> j = ''TCGA-A1-01'') [''TCGA-A2-02'']
   \<and> final_name re_plain ([] @ ''TCGA-A1-01'' # [''TCGA-A2-02'']) ''TCGA-A1-01-sample'' = ''TCGA-A1-01''
   \<and> overwrite_step re_plain ''TCGA-A1-01-sample'' ''TCGA-A1-01'' = ''TCGA-A1-01''
   \<and> sublist (final_name re_plain [''TCGA-A1-01'', ''TCGA-A2-02''] ''TCGA-A2-02-sample'')
        ''TCGA-A2-02-sample''
   \<and> list_all regex_literal [''TCGA-A1'', ''A1-01'']
   \<and> sublist ''TCGA-A1'' ''TCGA-A1-01-sample''
   \<and> final_name re_plain [''TCGA-A1'', ''A1-01''] ''TCGA-A1-01-sample'' = ''TCGA-A1''"
proof -
  let ?names = "[(Num 0, Str ''TCGA-A1-01-sample''), (Num 1, Str ''TCGA-A2-02-sample'')]"
  let ?ids = "[(Num 0, Str ''TCGA-A1-01''), (Num 2, Str ''TCGA-A2-02'')]"
  have h1: "wf_frame ex_expression" by (simp add: wf_frame_def ex_expression_def)
  have h2: "get_series (Str ''NAME'') ex_expression = Inr ?names"
    by (simp add: table_eval ex_expression_def)
  have h3: "list_all (\<lambda>v. is_Str (snd v)) ?names" by simp
  have h4: "get_series (Str ''Complete TCGA ID'') ex_clinical = Inr ?ids"
    by (simp add: table_eval ex_clinical_def)
  have h5: "snd (overwrite_names re_plain (map snd ?ids) ex_expression) = None"
    by (simp add: table_eval ex_expression_def)
  have h6: "literal_engine re_plain" by (rule literal_engine_re_plain)
  have l1: "list_all regex_literal [''TCGA-A1-01'', ''TCGA-A2-02'']"
    by (simp add: regex_literal_def regex_special_def)
  have l2: "list_all regex_literal [''TCGA-A1'', ''A1-01'']"
    by (simp add: regex_literal_def regex_special_def)
  have p1: "sublist ''TCGA-A1-01'' (final_name re_plain [] ''TCGA-A1-01-sample'')"
    by (simp add: final_name_def sublist_code)
  have p2: "list_all (\<lambda>j. sublist j ''TCGA-A1-01'' \<longrightarrow> j = ''TCGA-A1-01'') [''TCGA-A2-02'']"
    by (simp add: sublist_code)
  have p3: "sublist ''TCGA-A1'' ''TCGA-A1-01-sample''" by (simp add: sublist_code)
  have p4: "sublist ''TCGA-A1-01'' ''TCGA-A1-01-sample''" by (simp add: sublist_code)
  have p5: "\<not> sublist ''A1-01'' ''TCGA-A1''" by (simp add: sublist_code)
  note t = overwrite_loop_final_names[OF h1 h2 h3 h4 h5 h6]
  have c1: "get_series (Str ''NAME'')
        (fst (fst (create_data_structures_with_matching_sample re_plain ex_expression ex_clinical)))
        = Inr [(Num 0, Str ''TCGA-A1-01''), (Num 1, Str ''TCGA-A2-02'')]"
    unfolding t[THEN conjunct1]
    by (simp add: final_name_def overwrite_step_def re_plain_def sublist_code)
  have c2: "final_name re_plain ([] @ ''TCGA-A1-01'' # [''TCGA-A2-02'']) ''TCGA-A1-01-sample''
              = ''TCGA-A1-01''"
    using t[THEN conjunct2, THEN conjunct2, THEN conjunct2, THEN conjunct1, rule_format,
            of "''TCGA-A1-01''" "[''TCGA-A2-02'']" "[]" "''TCGA-A1-01-sample''"] l1 p1 p2
    by blast
  have c3: "overwrite_step re_plain ''TCGA-A1-01-sample'' ''TCGA-A1-01'' = ''TCGA-A1-01''"
    using t[THEN conjunct2, THEN conjunct2, THEN conjunct1, rule_format,
            of "''TCGA-A1-01''" "''TCGA-A1-01-sample''"] l1 p4
    by simp
  have c4: "sublist (final_name re_plain [''TCGA-A1-01'', ''TCGA-A2-02''] ''TCGA-A2-02-sample'')
              ''TCGA-A2-02-sample''"
    using t[THEN conjunct2, THEN conjunct2, THEN conjunct2, THEN conjunct2, THEN conjunct1,
            rule_format, of "[''TCGA-A1-01'', ''TCGA-A2-02'']" "''TCGA-A2-02-sample''"] l1
    by blast
  have c5: "final_name re_plain [''TCGA-A1'', ''A1-01''] ''TCGA-A1-01-sample'' = ''TCGA-A1''"
    using t[THEN conjunct2, THEN conjunct2, THEN conjunct2, THEN conjunct2, THEN conjunct2,
            THEN conjunct1, rule_format,
            of "''TCGA-A1''" "''A1-01''" "''TCGA-A1-01-sample''"] l2 p3 p5
    by simp
  from h1 h2 h3 h4 h5 h6 c1 l1 p1 p2 c2 c3 c4 l2 p3 c5 show ?thesis by simp
qed

text \<open>
  The claim as stated fails: both identifiers of \<open>ex_clinical_nested\<close> (neither with a
  metacharacter) are substrings of the first name of \<open>ex_expression\<close>, the last of them
  in the order of the loop is \<^verbatim>\<open>A1-01\<close>, and the row ends with the first,
  \<^verbatim>\<open>TCGA-A1\<close>, which no longer contains \<^verbatim>\<open>A1-01\<close>.
\<close>

theorem last_match_does_not_win:
  "get_series (Str ''Complete TCGA ID'') ex_clinical_nested
     = Inr [(Num 0, Str ''TCGA-A1''), (Num 1, Str ''A1-01'')]
   \<and> regex_literal ''TCGA-A1'' \<and> regex_literal ''A1-01''
   \<and> get_series (Str ''NAME'') ex_expression
        = Inr [(Num 0, Str ''TCGA-A1-01-sample''), (Num 1, Str ''TCGA-A2-02-sample'')]
   \<and> sublist ''TCGA-A1'' ''TCGA-A1-01-sample'' \<and> sublist ''A1-01'' ''TCGA-A1-01-sample''
   \<and> last_match [''TCGA-A1'', ''A1-01''] ''TCGA-A1-01-sample'' = ''A1-01''
   \<and> get_series (Str ''NAME'')
        (fst (fst (create_data_structures_with_matching_sample re_plain ex_expression ex_clinical_nested)))
        = Inr [(Num 0, Str ''TCGA-A1''), (Num 1, Str ''TCGA-A2-02-sample'')]"
  by (simp add: table_eval last_match_def ex_expression_def ex_clinical_nested_def
                regex_literal_def regex_special_def)

text \<open>
  Claim C10, as amended. When the loop has ended without exception and two expression
  rows have the same \<^verbatim>\<open>NAME\<close>, the call fails on the final reordering with the
  duplicate-labels error of \<^verbatim>\<open>reindex\<close>, unless the \<^verbatim>\<open>NAME\<close> column is, value for
  value, the identifier column of the clinical rows that are kept; only then is a pair
  returned, the expression table indexed by these names.
\<close>

theorem duplicate_names_reindex:
  assumes "get_series (Str ''Complete TCGA ID'') er = Inr ids"
    and "overwrite_names rx (map snd ids) ge = (ge', None)"
    and "get_series (Str ''NAME'') ge' = Inr names"
    and "\<not> distinct (map snd names)"
  shows "snd (create_data_structures_with_matching_sample rx ge er) = Inl DuplicateLabelsError
       \<or> (\<exists>expression clinical kept.
             snd (create_data_structures_with_matching_sample rx ge er) = Inr (expression, clinical)
           \<and> get_series (Str ''Complete TCGA ID'') clinical = Inr kept
           \<and> map snd kept = map snd names \<and> index expression = map snd names)"
proof -
  from get_series_Inr[OF assms(1)] obtain q where
    q: "col_positions (Str ''Complete TCGA ID'') er = [q]" by blast
  from get_series_Inr[OF assms(3)] obtain p where
    p: "col_positions (Str ''NAME'') ge' = [p]"
    and names: "names = map (\<lambda>r. (fst r, snd r ! p)) (rws ge')" by blast
  define clinical where
    "clinical = er\<lparr>rws := filter (\<lambda>r. snd r ! q \<in> set (map snd names)) (rws er)\<rparr>"
  define indexed where
    "indexed = \<lparr>columns = filter (\<lambda>c. c \<noteq> Str ''NAME'') (columns ge'),
                rws = map (\<lambda>r. (snd r ! p, cells_where (\<lambda>c. c \<noteq> Str ''NAME'') (columns ge') (snd r)))
                          (rws ge')\<rparr>"
  define kept where "kept = map (\<lambda>r. (fst r, snd r ! q)) (rws clinical)"
  have isin: "isin_rows (Str ''Complete TCGA ID'') (map snd names) er = Inr clinical"
    by (simp add: isin_rows_def q clinical_def)
  have si: "set_index (Str ''NAME'') ge' = Inr indexed"
    by (simp add: set_index_def p indexed_def)
  have "col_positions (Str ''Complete TCGA ID'') clinical = [q]"
    using q by (simp add: clinical_def col_positions_def)
  then have gk: "get_series (Str ''Complete TCGA ID'') clinical = Inr kept"
    by (simp add: get_series_def kept_def)
  have idx: "index indexed = map snd names"
    by (simp add: index_def indexed_def names comp_def)
  have res: "snd (create_data_structures_with_matching_sample rx ge er)
      = (case reindex (map snd kept) indexed of Inl e \<Rightarrow> Inl e
         | Inr reordered \<Rightarrow> Inr (reordered, clinical))"
    by (simp add: create_data_structures_with_matching_sample_def Let_def assms(1,2,3) isin si gk)
  show ?thesis
  proof (cases "map snd kept = map snd names")
    case True
    then have "reindex (map snd kept) indexed = Inr indexed" by (simp add: reindex_def idx)
    then have "snd (create_data_structures_with_matching_sample rx ge er) = Inr (indexed, clinical)"
      by (simp add: res)
    then show ?thesis using gk True idx by blast
  next
    case False
    then have "reindex (map snd kept) indexed = Inl DuplicateLabelsError"
      using assms(4) by (auto simp: reindex_def idx)
    then show ?thesis by (simp add: res)
  qed
qed

theorem duplicate_names_reindex_witness:
  "get_series (Str ''Complete TCGA ID'') ex_clinical
     = Inr [(Num 0, Str ''TCGA-A1-01''), (Num 2, Str ''TCGA-A2-02'')]
   \<and> overwrite_names re_plain [Str ''TCGA-A1-01'', Str ''TCGA-A2-02''] ex_replicates
        = (ex_replicates_normalized, None)
   \<and> get_series (Str ''NAME'') ex_replicates_normalized
        = Inr [(Num 0, Str ''TCGA-A1-01''), (Num 1, Str ''TCGA-A1-01'')]
   \<and> \<not> distinct [Str ''TCGA-A1-01'', Str ''TCGA-A1-01'']
   \<and> snd (create_data_structures_with_matching_sample re_plain ex_replicates ex_clinical)
        = Inl DuplicateLabelsError"
proof -
  let ?ids = "[(Num 0, Str ''TCGA-A1-01''), (Num 2, Str ''TCGA-A2-02'')]"
  let ?names = "[(Num 0, Str ''TCGA-A1-01''), (Num 1, Str ''TCGA-A1-01'')]"
  have h1: "get_series (Str ''Complete TCGA ID'') ex_clinical = Inr ?ids"
    by (simp add: table_eval ex_clinical_def)
  have h2: "overwrite_names re_plain (map snd ?ids) ex_replicates = (ex_replicates_normalized, None)"
    by (simp add: table_eval ex_replicates_def ex_replicates_normalized_def)
  have h3: "get_series (Str ''NAME'') ex_replicates_normalized = Inr ?names"
    by (simp add: table_eval ex_replicates_normalized_def)
  have h4: "\<not> distinct (map snd ?names)" by simp
  have ev: "snd (create_data_structures_with_matching_sample re_plain ex_replicates ex_clinical)
        = Inl DuplicateLabelsError"
    by (simp add: table_eval ex_replicates_def ex_clinical_def)
  from duplicate_names_reindex[OF h1 h2 h3 h4] ev h1 h2 h3 h4 show ?thesis by simp
qed

text \<open>
  The claim as stated fails: the two rows of \<open>ex_replicates\<close> are normalized to the same
  clinical identifier, which \<open>ex_clinical_repeated\<close> lists twice, and the call returns a
  pair of tables.
\<close>

theorem repeated_clinical_id_returns_pair:
  "get_series (Str ''Complete TCGA ID'') ex_clinical_repeated
     = Inr [(Num 0, Str ''TCGA-A1-01''), (Num 1, Str ''TCGA-A1-01'')]
   \<and> get_series (Str ''NAME'') ex_replicates
        = Inr [(Num 0, Str ''TCGA-A1-01-a''), (Num 1, Str ''TCGA-A1-01-b'')]
   \<and> fst (fst (create_data_structures_with_matching_sample re_plain ex_replicates ex_clinical_repeated))
        = ex_replicates_normalized
   \<and> get_series (Str ''NAME'') ex_replicates_normalized
        = Inr [(Num 0, Str ''TCGA-A1-01''), (Num 1, Str ''TCGA-A1-01'')]
   \<and> snd (create_data_structures_with_matching_sample re_plain ex_replicates ex_clinical_repeated)
        = Inr (\<lparr>columns = [Str ''BRCA1''],
                 rws = [(Str ''TCGA-A1-01'', [Num 2]), (Str ''TCGA-A1-01'', [Num 4])]\<rparr>,
               ex_clinical_repeated)"
  by (simp add: table_eval ex_replicates_def ex_clinical_repeated_def ex_replicates_normalized_def)

section \<open>Properties of the variability summary\<close>

lemma column_std_numeric:
  assumes "2 \<le> length xs"
  shows "column_std (map Num xs)
       = Num (sqrt (sum_list (map (\<lambda>x. (x - sum_list xs / real (length xs))\<^sup>2) xs)
                    / (real (length xs) - 1)))"
proof -
  have f: "map the_Num (filter is_Num (map Num xs)) = xs"
    by (induction xs) simp_all
  have r: "real (length xs - 1) = real (length xs) - 1" using assms by (simp add: of_nat_diff)
  have "\<not> length xs \<le> 1" using assms by simp
  then show ?thesis
    unfolding column_std_def f Let_def r by (simp add: power2_commute)
qed

text \<open>
  Claim C8. For every gene column that holds numbers only, at least two of them,
  \<^verbatim>\<open>get_std\<close> gives the sample standard deviation with the unbiased estimator: the root
  of the sum of the squared deviations from the mean, divided by \<open>n - 1\<close>. (Numbers are
  real numbers here.) For one gene and two samples with the values 2 and 4 that is the
  root of 2, between 1.414 and 1.415.
\<close>

theorem get_std_sample_estimator:
  assumes "\<not> list_ex (\<lambda>r. list_ex is_Str (snd r)) (rws ge)"
    and "j < length (columns ge)"
    and "map (\<lambda>r. snd r ! j) (rws ge) = map Num xs"
    and "2 \<le> length xs"
  shows "\<exists>res. snd (get_std ge) = Inr res \<and> length res = length (columns ge)
     \<and> res ! j = (columns ge ! j,
          Num (sqrt (sum_list (map (\<lambda>x. (x - sum_list xs / real (length xs))\<^sup>2) xs)
                     / (real (length xs) - 1))))"
  using assms by (simp add: get_std_def column_std_numeric)

theorem get_std_sample_estimator_witness:
  "\<not> list_ex (\<lambda>r. list_ex is_Str (snd r)) (rws ex_two_samples)
   \<and> 0 < length (columns ex_two_samples)
   \<and> map (\<lambda>r. snd r ! 0) (rws ex_two_samples) = map Num [2, 4]
   \<and> 2 \<le> length [2, 4 :: real]
   \<and> snd (get_std ex_two_samples) = Inr [(Str ''BRCA1'', Num (sqrt 2))]
   \<and> 1.414 < sqrt 2 \<and> sqrt 2 < 1.415"
proof -
  have h1: "\<not> list_ex (\<lambda>r. list_ex is_Str (snd r)) (rws ex_two_samples)"
    by (simp add: ex_two_samples_def)
  have h2: "0 < length (columns ex_two_samples)" by (simp add: ex_two_samples_def)
  have h3: "map (\<lambda>r. snd r ! 0) (rws ex_two_samples) = map Num [2, 4]"
    by (simp add: ex_two_samples_def)
  have h4: "2 \<le> length [2, 4 :: real]" by simp
  from get_std_sample_estimator[OF h1 h2 h3 h4] obtain res where
    res: "snd (get_std ex_two_samples) = Inr res" "length res = length (columns ex_two_samples)"
      "res ! 0 = (columns ex_two_samples ! 0,
          Num (sqrt (sum_list (map (\<lambda>x. (x - sum_list [2, 4] / real (length [2, 4 :: real]))\<^sup>2) [2, 4])
                     / (real (length [2, 4 :: real]) - 1))))"
    by blast
  have "length res = 1" using res(2) by (simp add: ex_two_samples_def)
  then have "res = [res ! 0]" by (cases res) simp_all
  also have "res ! 0 = (Str ''BRCA1'', Num (sqrt 2))"
    unfolding res(3) by (simp add: ex_two_samples_def)
  finally have ev: "snd (get_std ex_two_samples) = Inr [(Str ''BRCA1'', Num (sqrt 2))]"
    using res(1) by simp
  have lo: "1.414 < sqrt (2::real)" by (rule real_less_rsqrt) (simp add: power2_eq_square)
  have hi: "sqrt (2::real) < 1.415" by (rule real_less_lsqrt) (simp_all add: power2_eq_square)
  from h1 h2 h3 h4 ev lo hi show ?thesis by (intro conjI)
qed

end
